theory Spec2Isabelle
  imports Complex_Main
begin

section \<open>The location analysis service (\<open>GISService.analyzeLocation\<close>)\<close>

text \<open>
  The service reads a survey parcel from the spatial store, resolves a walking isochrone
  (Mapbox, with a buffer fallback), aggregates the points of interest inside it, looks up
  the nearest police station, hospital and main road, measures the overlap with tank
  polygons and composes a development score.
\<close>

subsection \<open>Numbers\<close>

text \<open>
  A JavaScript number is an IEEE 754 binary64 value. A finite one is given here by the
  rational it denotes, and every arithmetic operation of the code rounds its exact result
  to the nearest binary64 value, a tie going to the even significand. The numeric columns
  the store returns are finite numbers. The only operation of the code whose result can
  leave the finite range is the overlap percentage; there the infinities are kept. Where
  the code divides by a count that can be zero the outcome is an option (\<open>None\<close> stands
  for the non-finite results \<open>NaN\<close> and \<open>Infinity\<close>).
\<close>

function ilog2_up :: "rat \<Rightarrow> nat" where
  "ilog2_up x = (if x < 2 then 0 else Suc (ilog2_up (x / 2)))"
  by pat_completeness auto
termination
proof (relation "measure (\<lambda>x. nat \<lfloor>x\<rfloor>)")
  show "wf (measure (\<lambda>x::rat. nat \<lfloor>x\<rfloor>))" by simp
next
  fix x :: rat
  assume "\<not> x < 2"
  then have "\<lfloor>x / 2\<rfloor> < \<lfloor>x\<rfloor>" "0 < \<lfloor>x\<rfloor>" by linarith+
  then show "(x / 2, x) \<in> measure (\<lambda>x. nat \<lfloor>x\<rfloor>)" by simp
qed

function ilog2_down :: "rat \<Rightarrow> nat" where
  "ilog2_down x = (if x \<le> 0 \<or> 1 \<le> x then 0 else Suc (ilog2_down (2 * x)))"
  by pat_completeness auto
termination
proof (relation "measure (\<lambda>x. nat \<lceil>1 / x\<rceil>)")
  show "wf (measure (\<lambda>x::rat. nat \<lceil>1 / x\<rceil>))" by simp
next
  fix x :: rat
  assume "\<not> (x \<le> 0 \<or> 1 \<le> x)"
  then have x: "0 < x" "x < 1" by simp_all
  define y where "y = 1 / x"
  from x have y: "1 < y" by (simp add: y_def)
  have "1 / (2 * x) = y / 2" by (simp add: y_def)
  moreover have "\<lceil>y / 2\<rceil> < \<lceil>y\<rceil>"
  proof -
    have k: "2 \<le> \<lceil>y\<rceil>" using y by linarith
    have "y \<le> of_int \<lceil>y\<rceil>" by linarith
    then have "y / 2 \<le> of_int \<lceil>y\<rceil> / 2" by simp
    also have "\<dots> \<le> of_int (\<lceil>y\<rceil> - 1)" using k by simp
    finally have "\<lceil>y / 2\<rceil> \<le> \<lceil>y\<rceil> - 1" by (simp only: ceiling_le_iff)
    then show ?thesis by simp
  qed
  moreover have "0 < \<lceil>y\<rceil>" using y by linarith
  ultimately have "\<lceil>1 / (2 * x)\<rceil> < \<lceil>1 / x\<rceil>" "0 < \<lceil>1 / x\<rceil>"
    by (simp_all only: y_def)
  then show "(2 * x, x) \<in> measure (\<lambda>x. nat \<lceil>1 / x\<rceil>)"
    by simp
qed

declare ilog2_up.simps [simp del] ilog2_down.simps [simp del]

definition ilog2 :: "rat \<Rightarrow> int" where
  \<comment> \<open>For positive \<open>x\<close>, the exponent \<open>e\<close> with \<open>2^e \<le> x < 2^(e+1)\<close>.\<close>
  "ilog2 x = (if 1 \<le> x then int (ilog2_up x) else - int (ilog2_down x))"

definition round_even :: "rat \<Rightarrow> int" where
  \<comment> \<open>The nearest integer, a tie going to the even one.\<close>
  "round_even y =
     (let f = \<lfloor>y\<rfloor>; r = y - of_int f
      in if r < 1 / 2 then f else if 1 / 2 < r then f + 1 else if even f then f else f + 1)"

definition quantum :: "rat \<Rightarrow> rat" where
  \<comment> \<open>The spacing of the binary64 values around \<open>x\<close>: 53 significant bits, and the
      subnormal spacing \<open>2^-1074\<close> below \<open>2^-1022\<close>.\<close>
  "quantum x = 2 powi (max (ilog2 \<bar>x\<bar>) (- 1022) - 52)"

definition binary64 :: "rat \<Rightarrow> rat" where
  \<comment> \<open>Rounding to the nearest binary64 value (the exponent is not bounded above here).\<close>
  "binary64 x = (if x = 0 then 0 else of_int (round_even (x / quantum x)) * quantum x)"

definition overflows :: "rat \<Rightarrow> bool" where
  \<comment> \<open>The exact results that round to an infinity.\<close>
  "overflows x \<longleftrightarrow> 2 ^ 1024 - 2 ^ 970 \<le> \<bar>x\<bar>"

datatype js_number = Finite rat | PosInfinity | NegInfinity

definition to_number :: "rat \<Rightarrow> js_number" where
  \<comment> \<open>The number an exact result becomes, overflow included.\<close>
  "to_number x =
     (if overflows x then (if 0 < x then PosInfinity else NegInfinity)
      else Finite (binary64 x))"

definition fadd :: "rat \<Rightarrow> rat \<Rightarrow> rat" where
  "fadd a b = binary64 (a + b)"

definition fsub :: "rat \<Rightarrow> rat \<Rightarrow> rat" where
  "fsub a b = binary64 (a - b)"

definition fmul :: "rat \<Rightarrow> rat \<Rightarrow> rat" where
  "fmul a b = binary64 (a * b)"

definition fdiv :: "rat \<Rightarrow> rat \<Rightarrow> rat" where
  \<comment> \<open>A quotient by a divisor that is not zero.\<close>
  "fdiv a b = binary64 (a / b)"

definition Math_round :: "rat \<Rightarrow> int" where
  \<comment> \<open>\<open>Math.round\<close>: the nearest integer, a tie going up.\<close>
  "Math_round x = \<lfloor>x + 1 / 2\<rfloor>"

definition toFixed :: "rat \<Rightarrow> nat \<Rightarrow> rat" where
  \<comment> \<open>\<open>parseFloat(x.toFixed(d))\<close>: the sign is set aside, the integer \<open>n\<close> with
      \<open>n / 10^d\<close> nearest to the exact magnitude is taken, the larger one on a tie, and the
      decimal string is read back as a number.\<close>
  "toFixed x d =
     (if x < 0 then - binary64 (of_int \<lfloor>(- x) * 10 ^ d + 1 / 2\<rfloor> / 10 ^ d)
      else binary64 (of_int \<lfloor>x * 10 ^ d + 1 / 2\<rfloor> / 10 ^ d))"

definition js_div :: "rat \<Rightarrow> rat \<Rightarrow> rat option" where
  \<comment> \<open>A quotient that is finite only when the divisor is not zero.\<close>
  "js_div a b = (if b = 0 then None else Some (fdiv a b))"

subsection \<open>Errors, external calls and their log\<close>

datatype js_error =
    Error (message: string)
  | TypeError (message: string)
  | DatabaseError (message: string)

datatype coords = Num rat | Arr "coords list"

record geometry =
  gtype :: string
  coordinates :: coords

datatype event =
    SurveyQuery string string
  | IsochroneFetch rat rat nat nat string
  | BufferQuery rat string string
  | PoiQuery geometry
  | NearestQuery string string string
  | FtlQuery geometry
  | TanksQuery geometry

type_synonym 'a io = "(js_error + 'a) \<times> event list"

definition io_return :: "'a \<Rightarrow> 'a io" where
  "io_return x = (Inr x, [])"

definition io_throw :: "js_error \<Rightarrow> 'a io" where
  "io_throw e = (Inl e, [])"

definition io_call :: "event \<Rightarrow> js_error + 'a \<Rightarrow> 'a io" where
  \<comment> \<open>An awaited external call: it is logged, and its answer is a value or a rejection.\<close>
  "io_call ev answer = (answer, [ev])"

definition io_bind :: "'a io \<Rightarrow> ('a \<Rightarrow> 'b io) \<Rightarrow> 'b io" where
  "io_bind m f =
     (case fst m of
        Inl e \<Rightarrow> (Inl e, snd m)
      | Inr x \<Rightarrow> (fst (f x), snd m @ snd (f x)))"

subsection \<open>Rows the spatial store returns, and the routing service's response\<close>

record survey_row =
  s_longitude :: rat
  s_latitude :: rat

record buffer_row =
  buffer_geom :: "geometry option"

record poi_row =
  p_category :: "string option"
  p_lat :: rat
  p_lon :: rat

record nearest_row =
  dist_m :: rat
  n_lat :: rat
  n_lon :: rat

record ftl_row =
  total_intersection :: rat
  isochrone_area :: "rat option"

datatype feature_collection = FeatureCollection "geometry list option"

record tanks_row =
  geojson :: "feature_collection option"

datatype table_scan = NoSuchTable | Scan "nearest_row list"

record iso_feature =
  feature_geometry :: "geometry option"

datatype iso_body = NotJson | IsoData "iso_feature list option"

datatype fetch_result =
    FetchRejected string
  | Response (ok: bool) (status: nat) (body_text: string) (body_json: iso_body)

text \<open>
  The environment of one analysis. Each field is what the named external call answers for
  the parameters the code passes: \<open>Inl\<close> when the awaited call rejects, \<open>Inr\<close> with the
  rows otherwise. A facility table is given by its state: \<open>NoSuchTable\<close> when the relation
  does not exist, \<open>Scan rows\<close> with the values the \<open>SELECT\<close> list computes for the parcel,
  in the order of the \<open>ORDER BY\<close> clause.
\<close>

record env =
  survey_centroids :: "string \<Rightarrow> string \<Rightarrow> js_error + survey_row list"
  MAPBOX_TOKEN :: "string option"
  mapbox_isochrone :: "rat \<Rightarrow> rat \<Rightarrow> nat \<Rightarrow> nat \<Rightarrow> string \<Rightarrow> fetch_result"
  survey_buffer :: "rat \<Rightarrow> string \<Rightarrow> string \<Rightarrow> js_error + buffer_row list"
  pois_in :: "geometry \<Rightarrow> js_error + poi_row list"
  facility_table :: "string \<Rightarrow> string \<Rightarrow> string \<Rightarrow> table_scan"
  ftl_overlap :: "geometry \<Rightarrow> js_error + ftl_row list"
  tanks_in :: "geometry \<Rightarrow> js_error + tanks_row list"
  now_iso :: string

subsection \<open>Constants\<close>

definition ISO_MINUTES :: nat where
  "ISO_MINUTES = 10"

definition DENOISE :: nat where
  "DENOISE = 1"

definition FALLBACK_WALK_BUFFER_M :: rat where
  "FALLBACK_WALK_BUFFER_M = 1000"

definition SUPPORTIVE_CATEGORIES :: "string list" where
  "SUPPORTIVE_CATEGORIES = [''Retail'', ''Health And Medical'', ''Accommodation'']"

subsection \<open>Step 2: the isochrone, or the buffer\<close>

datatype iso_failure =
    NetworkFailure string
  | ApiError nat string
  | JsonSyntaxError
  | NoIsochroneData
  | GeometryMissing
  | UnexpectedGeometryType string

definition isochrone_of_response :: "fetch_result \<Rightarrow> iso_failure + geometry" where
  \<comment> \<open>The body of the inner \<open>try\<close>, after the fetch: every way it throws is a value.\<close>
  "isochrone_of_response res =
     (case res of
        FetchRejected m \<Rightarrow> Inl (NetworkFailure m)
      | Response is_ok st txt body \<Rightarrow>
          if \<not> is_ok then Inl (ApiError st txt)
          else (case body of
                  NotJson \<Rightarrow> Inl JsonSyntaxError
                | IsoData None \<Rightarrow> Inl NoIsochroneData
                | IsoData (Some []) \<Rightarrow> Inl NoIsochroneData
                | IsoData (Some (f # _)) \<Rightarrow>
                    (case feature_geometry f of
                       None \<Rightarrow> Inl GeometryMissing
                     | Some isoGeometry \<Rightarrow>
                         if gtype isoGeometry = ''Polygon'' \<or> gtype isoGeometry = ''MultiPolygon''
                         then Inr isoGeometry
                         else Inl (UnexpectedGeometryType (gtype isoGeometry)))))"

definition fallback_buffer :: "env \<Rightarrow> string \<Rightarrow> string \<Rightarrow> geometry io" where
  \<comment> \<open>The \<open>catch\<close> block: the buffer query, then \<open>rows[0].buffer_geom\<close> parsed and its
      \<open>type\<close> read; a missing row or a null geometry is a \<open>TypeError\<close>.\<close>
  "fallback_buffer e village surveyNumber =
     io_bind
       (io_call (BufferQuery FALLBACK_WALK_BUFFER_M village surveyNumber)
          (survey_buffer e FALLBACK_WALK_BUFFER_M village surveyNumber))
       (\<lambda>rows. case rows of
           [] \<Rightarrow> io_throw (TypeError ''Cannot read properties of undefined (reading 'buffer_geom')'')
         | row # _ \<Rightarrow>
             (case buffer_geom row of
                None \<Rightarrow> io_throw (TypeError ''Cannot read properties of null (reading 'type')'')
              | Some g \<Rightarrow> io_return g))"

definition resolve_isochrone ::
  "env \<Rightarrow> string \<Rightarrow> string \<Rightarrow> rat \<Rightarrow> rat \<Rightarrow> string \<Rightarrow> (geometry \<times> bool) io" where
  \<comment> \<open>The inner \<open>try\<close>/\<open>catch\<close>; the result is \<open>(isoGeometry, usedFallback)\<close>.\<close>
  "resolve_isochrone e village surveyNumber lon lat token =
     io_bind
       (io_call (IsochroneFetch lon lat ISO_MINUTES DENOISE token)
          (Inr (mapbox_isochrone e lon lat ISO_MINUTES DENOISE token)))
       (\<lambda>isoResponse. case isochrone_of_response isoResponse of
           Inr isoGeometry \<Rightarrow> io_return (isoGeometry, False)
         | Inl failure \<Rightarrow>
             io_bind (fallback_buffer e village surveyNumber)
               (\<lambda>isoGeometry. io_return (isoGeometry, True)))"

subsection \<open>Step 4: points of interest by category\<close>

record location =
  lat :: rat
  lon :: rat

record category_aggregate =
  category :: string
  count :: nat
  percent :: "rat option"
  locations :: "location list"

record supportive_business =
  sb_category :: string
  sb_count :: nat
  sb_percent :: "rat option"

text \<open>
  \<open>categoryMap\<close> is a plain object: its own properties are kept here in creation order,
  each with the array of locations pushed so far. A property name that the object
  inherits from \<open>Object.prototype\<close> reads as a truthy value that is not an array, so the
  \<open>push\<close> on it throws.
\<close>

type_synonym category_map = "(string \<times> location list) list"

definition property_key :: "string option \<Rightarrow> string" where
  \<comment> \<open>The property name \<open>poi.category\<close> is coerced to; \<open>null\<close> becomes the string "null".\<close>
  "property_key c = (case c of None \<Rightarrow> ''null'' | Some s \<Rightarrow> s)"

definition Object_prototype_properties :: "string list" where
  "Object_prototype_properties =
     [''constructor'', ''__defineGetter__'', ''__defineSetter__'', ''hasOwnProperty'',
      ''__lookupGetter__'', ''__lookupSetter__'', ''isPrototypeOf'', ''propertyIsEnumerable'',
      ''toString'', ''valueOf'', ''__proto__'', ''toLocaleString'']"

definition push_location :: "string \<Rightarrow> location \<Rightarrow> category_map \<Rightarrow> category_map" where
  "push_location k l m = map (\<lambda>(k', ls). if k' = k then (k', ls @ [l]) else (k', ls)) m"

definition categoryMap_add :: "category_map \<Rightarrow> poi_row \<Rightarrow> js_error + category_map" where
  \<comment> \<open>One round of the \<open>forEach\<close> callback.\<close>
  "categoryMap_add m poi =
     (let k = property_key (p_category poi);
          l = \<lparr>lat = p_lat poi, lon = p_lon poi\<rparr>
      in if k \<in> set (map fst m) then Inr (push_location k l m)
         else if k \<in> set Object_prototype_properties
         then Inl (TypeError ''categoryMap[poi.category].push is not a function'')
         else Inr (m @ [(k, [l])]))"

fun categoryMap_forEach :: "category_map \<Rightarrow> poi_row list \<Rightarrow> js_error + category_map" where
  "categoryMap_forEach m [] = Inr m"
| "categoryMap_forEach m (poi # rows) =
     (case categoryMap_add m poi of
        Inl e \<Rightarrow> Inl e
      | Inr m' \<Rightarrow> categoryMap_forEach m' rows)"

definition digit_value :: "char \<Rightarrow> nat" where
  "digit_value c = of_char c - 48"

definition array_index_value :: "string \<Rightarrow> nat" where
  "array_index_value s = foldl (\<lambda>a c. 10 * a + digit_value c) 0 s"

definition is_array_index :: "string \<Rightarrow> bool" where
  \<comment> \<open>A canonical numeric string below \<open>2^32 - 1\<close>.\<close>
  "is_array_index s \<longleftrightarrow>
     s \<noteq> [] \<and> list_all (\<lambda>c. c \<in> set ''0123456789'') s
     \<and> (s = ''0'' \<or> hd s \<noteq> CHR ''0'') \<and> array_index_value s < 2 ^ 32 - 1"

definition Object_entries :: "category_map \<Rightarrow> (string \<times> location list) list" where
  \<comment> \<open>The own properties in the order \<open>Object.keys\<close> lists them: array indices
      ascending, then the other names in creation order. \<open>Object.keys(categoryMap)\<close>
      followed by the reads \<open>categoryMap[category]\<close> is the map over these pairs.\<close>
  "Object_entries m =
     sort_key (\<lambda>kv. array_index_value (fst kv)) (filter (\<lambda>kv. is_array_index (fst kv)) m)
     @ filter (\<lambda>kv. \<not> is_array_index (fst kv)) m"

definition percent_of :: "nat \<Rightarrow> nat \<Rightarrow> rat option" where
  \<comment> \<open>\<open>parseFloat(((c / n) * 100).toFixed(2))\<close>\<close>
  "percent_of c n = map_option (\<lambda>q. toFixed (fmul q 100) 2) (js_div (of_nat c) (of_nat n))"

definition poiBreakdown_of :: "category_map \<Rightarrow> nat \<Rightarrow> category_aggregate list" where
  "poiBreakdown_of categoryMap totalPois =
     sort_key (\<lambda>a. - int (count a))
       (map (\<lambda>(k, ls). \<lparr>category = k, count = length ls,
                        percent = percent_of (length ls) totalPois, locations = ls\<rparr>)
          (Object_entries categoryMap))"

definition supportiveBusinesses_of :: "category_aggregate list \<Rightarrow> supportive_business list" where
  "supportiveBusinesses_of poiBreakdown =
     map (\<lambda>item.
            let supportiveTotal =
                  foldl (\<lambda>sum i. sum + count i) 0
                    (filter (\<lambda>i. category i \<in> set SUPPORTIVE_CATEGORIES) poiBreakdown)
            in \<lparr>sb_category = category item, sb_count = count item,
                sb_percent = percent_of (count item) supportiveTotal\<rparr>)
       (filter (\<lambda>item. category item \<in> set SUPPORTIVE_CATEGORIES) poiBreakdown)"

subsection \<open>Step 5: the nearest facility\<close>

record nearest_feature =
  distance_m :: rat
  nf_lat :: rat
  nf_lon :: rat

definition validTables :: "string list" where
  "validTables = [''ts_policestations'', ''ts_hospitals'', ''ts_main_roads'']"

definition relation_missing :: "string \<Rightarrow> string" where
  \<comment> \<open>The store's message for a relation that does not exist.\<close>
  "relation_missing tableName =
     ''relation '' @ [CHR 0x22] @ tableName @ [CHR 0x22] @ '' does not exist''"

definition nearest_query :: "string \<Rightarrow> table_scan \<Rightarrow> js_error + nearest_row list" where
  \<comment> \<open>The lateral join keeps the first row of the facility table (\<open>LIMIT 1\<close>) and yields
      no row for an empty table; a relation that does not exist rejects the query.\<close>
  "nearest_query tableName t =
     (case t of
        NoSuchTable \<Rightarrow> Inl (DatabaseError (relation_missing tableName))
      | Scan rows \<Rightarrow> Inr (take 1 rows))"

definition getNearestFeature ::
  "env \<Rightarrow> string \<Rightarrow> string \<Rightarrow> string \<Rightarrow> nearest_feature option io" where
  "getNearestFeature e village surveyNumber tableName =
     (if tableName \<notin> set validTables
      then io_throw (Error (''Invalid table name: '' @ tableName))
      else io_bind
             (io_call (NearestQuery tableName village surveyNumber)
                (nearest_query tableName (facility_table e tableName village surveyNumber)))
             (\<lambda>rows. case rows of
                 [] \<Rightarrow> io_return None
               | row # _ \<Rightarrow>
                   io_return (Some \<lparr>distance_m = dist_m row, nf_lat = n_lat row,
                                    nf_lon = n_lon row\<rparr>)))"

subsection \<open>Step 6: the tank (FTL) overlap\<close>

datatype ftl_percentage = Whole int | Infinity

definition rawPercentage_of :: "rat \<Rightarrow> rat \<Rightarrow> js_number" where
  \<comment> \<open>\<open>(total_intersection / isochrone_area) * 100\<close> for an area that is not zero.\<close>
  "rawPercentage_of intersection area =
     (case to_number (intersection / area) of
        Finite q \<Rightarrow> to_number (q * 100)
      | PosInfinity \<Rightarrow> PosInfinity
      | NegInfinity \<Rightarrow> NegInfinity)"

definition ftlPercentage_of :: "ftl_row list \<Rightarrow> ftl_percentage" where
  "ftlPercentage_of rows =
     (case rows of
        [] \<Rightarrow> Whole 0
      | row # _ \<Rightarrow>
          (case isochrone_area row of
             None \<Rightarrow> Whole 0
           | Some area \<Rightarrow>
               if area > 0
               then (case rawPercentage_of (total_intersection row) area of
                       Finite rawPercentage \<Rightarrow>
                         if rawPercentage > 9 then Whole (Math_round rawPercentage) else Whole 0
                     | PosInfinity \<Rightarrow> Infinity
                     | NegInfinity \<Rightarrow> Whole 0)
               else Whole 0))"

definition tanksGeoJSON_of :: "tanks_row list \<Rightarrow> feature_collection option" where
  "tanksGeoJSON_of rows = (case rows of [] \<Rightarrow> None | row # _ \<Rightarrow> geojson row)"

subsection \<open>Step 7: the development score\<close>

definition poiScore_of :: "nat \<Rightarrow> rat" where
  "poiScore_of totalPois = min 30 (fmul (fdiv (of_nat totalPois) 100) 30)"

definition amenityScore_of ::
  "nearest_feature option \<Rightarrow> nearest_feature option \<Rightarrow> nearest_feature option \<Rightarrow> rat" where
  "amenityScore_of policeData hospitalData roadData =
     (let score = 0;
          score = (case policeData of None \<Rightarrow> score
                   | Some f \<Rightarrow> fadd score (max 0 (fsub 10 (fdiv (distance_m f) 1000))));
          score = (case hospitalData of None \<Rightarrow> score
                   | Some f \<Rightarrow> fadd score (max 0 (fsub 10 (fdiv (distance_m f) 1000))));
          score = (case roadData of None \<Rightarrow> score
                   | Some f \<Rightarrow> fadd score (max 0 (fsub 5 (fdiv (distance_m f) 1000))))
      in min 25 score)"

definition ftlScore_of :: "ftl_percentage \<Rightarrow> rat" where
  \<comment> \<open>For an infinite percentage \<open>20 - Infinity / 5\<close> is \<open>-Infinity\<close>, and the maximum is 0.\<close>
  "ftlScore_of ftlPercentage =
     (case ftlPercentage of
        Whole p \<Rightarrow> if p = 0 then 20 else max 0 (fsub 20 (fdiv (of_int p) 5))
      | Infinity \<Rightarrow> 0)"

definition supportiveTotal_of :: "supportive_business list \<Rightarrow> nat" where
  "supportiveTotal_of supportiveBusinesses = foldl (\<lambda>sum b. sum + sb_count b) 0 supportiveBusinesses"

definition businessScore_of :: "supportive_business list \<Rightarrow> rat" where
  "businessScore_of supportiveBusinesses =
     min 15 (fmul (fdiv (of_nat (supportiveTotal_of supportiveBusinesses)) 20) 15)"

definition accessibilityScore_of :: "category_map \<Rightarrow> rat" where
  "accessibilityScore_of categoryMap =
     (let categoryCount = length (Object_entries categoryMap)
      in min 10 (fmul (fdiv (of_nat categoryCount) 15) 10))"

record scoreBreakdown =
  poi_score :: rat
  amenity_score :: rat
  ftl_score :: rat
  business_score :: rat
  accessibility_score :: rat

subsection \<open>Step 8: the result\<close>

record mapData =
  isochrone_geometry :: geometry
  poi_locations :: "category_aggregate list"
  nearest_police :: "nearest_feature option"
  nearest_hospital :: "nearest_feature option"
  nearest_road :: "nearest_feature option"
  tanks_geometry :: "feature_collection option"

record analysis =
  village :: string
  survey_number :: string
  latitude :: rat
  longitude :: rat
  total_pois :: nat
  poi_breakdown :: "category_aggregate list"
  distance_to_police :: "rat option"
  distance_to_hospital :: "rat option"
  distance_to_main_road :: "rat option"
  supportive_businesses :: "supportive_business list"
  ftl_zone_percentage :: ftl_percentage
  development_score :: int
  score_breakdown :: scoreBreakdown
  used_fallback :: bool
  analysis_date :: string
  map_data :: mapData

datatype analysis_result = Failure (error: string) | Success analysis

definition result_keys :: "analysis_result \<Rightarrow> string list" where
  \<comment> \<open>The property names of the object \<open>analyzeLocation\<close> returns.\<close>
  "result_keys r =
     (case r of
        Failure _ \<Rightarrow> [''error'']
      | Success _ \<Rightarrow>
          [''village'', ''survey_number'', ''latitude'', ''longitude'', ''total_pois'',
           ''poi_breakdown'', ''distance_to_police'', ''distance_to_hospital'',
           ''distance_to_main_road'', ''supportive_businesses'', ''ftl_zone_percentage'',
           ''development_score'', ''score_breakdown'', ''used_fallback'', ''analysis_date'',
           ''map_data''])"

definition distance_km :: "nearest_feature option \<Rightarrow> rat option" where
  "distance_km d = map_option (\<lambda>f. toFixed (fdiv (distance_m f) 1000) 3) d"

definition assemble ::
  "env \<Rightarrow> string \<Rightarrow> string \<Rightarrow> survey_row \<Rightarrow> geometry \<Rightarrow> bool \<Rightarrow> poi_row list \<Rightarrow> category_map
     \<Rightarrow> nearest_feature option \<Rightarrow> nearest_feature option \<Rightarrow> nearest_feature option
     \<Rightarrow> ftl_row list \<Rightarrow> tanks_row list \<Rightarrow> analysis" where
  \<comment> \<open>The computations of steps 4, 6, 7 and 8 on the answers gathered from the store.\<close>
  "assemble e village' surveyNumber survey isoGeometry usedFallback poiRows categoryMap
       policeData hospitalData roadData ftlRows tanksRows =
     (let totalPois = length poiRows;
          poiBreakdown = poiBreakdown_of categoryMap totalPois;
          supportiveBusinesses = supportiveBusinesses_of poiBreakdown;
          ftlPercentage = ftlPercentage_of ftlRows;
          tanksGeoJSON = tanksGeoJSON_of tanksRows;
          poiScore = poiScore_of totalPois;
          amenityScore = amenityScore_of policeData hospitalData roadData;
          ftlScore = ftlScore_of ftlPercentage;
          businessScore = businessScore_of supportiveBusinesses;
          accessibilityScore = accessibilityScore_of categoryMap;
          developmentScore =
            Math_round
              (fadd (fadd (fadd (fadd poiScore amenityScore) ftlScore) businessScore)
                 accessibilityScore);
          scoreBreakdown =
            \<lparr>poi_score = min 30 (toFixed poiScore 1),
             amenity_score = min 25 (toFixed amenityScore 1),
             ftl_score = min 20 (toFixed ftlScore 1),
             business_score = min 15 (toFixed businessScore 1),
             accessibility_score = min 10 (toFixed accessibilityScore 1)\<rparr>
      in \<lparr>village = village', survey_number = surveyNumber,
          latitude = s_latitude survey, longitude = s_longitude survey,
          total_pois = totalPois, poi_breakdown = poiBreakdown,
          distance_to_police = distance_km policeData,
          distance_to_hospital = distance_km hospitalData,
          distance_to_main_road = distance_km roadData,
          supportive_businesses = supportiveBusinesses,
          ftl_zone_percentage = ftlPercentage,
          development_score = developmentScore,
          score_breakdown = scoreBreakdown,
          used_fallback = usedFallback,
          analysis_date = now_iso e,
          map_data =
            \<lparr>isochrone_geometry = isoGeometry, poi_locations = poiBreakdown,
             nearest_police = policeData, nearest_hospital = hospitalData,
             nearest_road = roadData, tanks_geometry = tanksGeoJSON\<rparr>\<rparr>)"

subsection \<open>\<open>analyzeLocation\<close>\<close>

definition truthy :: "string option \<Rightarrow> string option" where
  \<comment> \<open>An environment variable passes \<open>!MAPBOX_TOKEN\<close> when it is set and not empty.\<close>
  "truthy t = (case t of None \<Rightarrow> None | Some s \<Rightarrow> if s = [] then None else Some s)"

definition analyzeLocation_try :: "env \<Rightarrow> string \<Rightarrow> string \<Rightarrow> analysis_result io" where
  \<comment> \<open>The body of the outer \<open>try\<close>.\<close>
  "analyzeLocation_try e village' surveyNumber =
     io_bind (io_call (SurveyQuery village' surveyNumber) (survey_centroids e village' surveyNumber))
     (\<lambda>surveyRows. case surveyRows of
        [] \<Rightarrow> io_return
               (Failure ''No matching survey centroid found. Check village and survey number.'')
      | survey # _ \<Rightarrow>
        (case truthy (MAPBOX_TOKEN e) of
           None \<Rightarrow> io_throw (Error
             ''Mapbox token not configured. Please set MAPBOX_TOKEN in environment variables.'')
         | Some token \<Rightarrow>
        io_bind (resolve_isochrone e village' surveyNumber (s_longitude survey) (s_latitude survey)
                   token)
        (\<lambda>(isoGeometry, usedFallback).
        io_bind (io_call (PoiQuery isoGeometry) (pois_in e isoGeometry))
        (\<lambda>poiRows.
        io_bind (categoryMap_forEach [] poiRows, [])
        (\<lambda>categoryMap.
        io_bind (getNearestFeature e village' surveyNumber ''ts_policestations'')
        (\<lambda>policeData.
        io_bind (getNearestFeature e village' surveyNumber ''ts_hospitals'')
        (\<lambda>hospitalData.
        io_bind (getNearestFeature e village' surveyNumber ''ts_main_roads'')
        (\<lambda>roadData.
        io_bind (io_call (FtlQuery isoGeometry) (ftl_overlap e isoGeometry))
        (\<lambda>ftlRows.
        io_bind (io_call (TanksQuery isoGeometry) (tanks_in e isoGeometry))
        (\<lambda>tanksRows.
        io_return
          (Success (assemble e village' surveyNumber survey isoGeometry usedFallback poiRows
                      categoryMap policeData hospitalData roadData ftlRows tanksRows))))))))))))"

definition analyzeLocation :: "env \<Rightarrow> string \<Rightarrow> string \<Rightarrow> analysis_result \<times> event list" where
  \<comment> \<open>The outer \<open>catch\<close> turns whatever was thrown into \<open>{ error: message }\<close>. The second
      component is the log of the external calls made, in order.\<close>
  "analyzeLocation e village' surveyNumber =
     (let run = analyzeLocation_try e village' surveyNumber
      in case fst run of
           Inl err \<Rightarrow>
             (Failure (if message err = [] then ''GIS analysis failed'' else message err), snd run)
         | Inr res \<Rightarrow> (res, snd run))"

subsection \<open>Vocabulary for the properties\<close>

definition key_of :: "poi_row \<Rightarrow> string" where
  "key_of poi = property_key (p_category poi)"

definition location_of :: "poi_row \<Rightarrow> location" where
  "location_of poi = \<lparr>lat = p_lat poi, lon = p_lon poi\<rparr>"

definition locations_at :: "category_map \<Rightarrow> string \<Rightarrow> location list" where
  "locations_at m k = (case map_of m k of None \<Rightarrow> [] | Some ls \<Rightarrow> ls)"

definition feature_of :: "nearest_row list \<Rightarrow> nearest_feature option" where
  "feature_of rows =
     (case rows of [] \<Rightarrow> None
      | row # _ \<Rightarrow> Some \<lparr>distance_m = dist_m row, nf_lat = n_lat row, nf_lon = n_lon row\<rparr>)"

definition routing_unusable :: "fetch_result \<Rightarrow> bool" where
  \<comment> \<open>The routing service returns a non-success status, no features, or a first geometry
      that is neither a Polygon nor a MultiPolygon.\<close>
  "routing_unusable res =
     (case res of
        FetchRejected _ \<Rightarrow> False
      | Response is_ok st txt body \<Rightarrow>
          \<not> is_ok
          \<or> (case body of
                NotJson \<Rightarrow> False
              | IsoData None \<Rightarrow> True
              | IsoData (Some []) \<Rightarrow> True
              | IsoData (Some (f # _)) \<Rightarrow>
                  (case feature_geometry f of
                     None \<Rightarrow> False
                   | Some g \<Rightarrow> gtype g \<noteq> ''Polygon'' \<and> gtype g \<noteq> ''MultiPolygon'')))"

subsection \<open>The scoring law in the words of the specification\<close>

text \<open>
  The formulas of the specification, each operation being the one on JavaScript numbers.
\<close>

definition km :: "nearest_feature option \<Rightarrow> rat option" where
  \<comment> \<open>The distance to a facility in kilometres; \<open>None\<close> is the null distance.\<close>
  "km d = map_option (\<lambda>f. fdiv (distance_m f) 1000) d"


definition spec_component :: "rat \<Rightarrow> rat option \<Rightarrow> rat" where
  "spec_component capacity_km distance =
     (case distance of None \<Rightarrow> 0 | Some d \<Rightarrow> max 0 (fsub capacity_km d))"

definition spec_amenity_score :: "rat option \<Rightarrow> rat option \<Rightarrow> rat option \<Rightarrow> rat" where
  "spec_amenity_score police hospital road =
     min 25 (fadd (fadd (spec_component 10 police) (spec_component 10 hospital))
               (spec_component 5 road))"





definition first_missing :: "env \<Rightarrow> string \<Rightarrow> string \<Rightarrow> string option" where
  \<comment> \<open>The first facility table, in the order of the lookups, that does not exist.\<close>
  "first_missing e village' surveyNumber =
     find (\<lambda>t. facility_table e t village' surveyNumber = NoSuchTable) validTables"

subsection \<open>A concrete parcel\<close>

text \<open>
  A parcel whose isochrone holds 40 points of interest (25 retail, 10 education, 5 without a
  category), with a police station at 2 km, a hospital at 3 km, a main road at 0.5 km and
  no tank in reach.
\<close>

definition walk_polygon :: geometry where
  "walk_polygon = \<lparr>gtype = ''Polygon'', coordinates = Arr [Arr [Arr [Num 79, Num 18]]]\<rparr>"

definition buffer_polygon :: geometry where
  "buffer_polygon = \<lparr>gtype = ''Polygon'', coordinates = Arr [Arr [Arr [Num 80, Num 19]]]\<rparr>"

definition scenario_pois :: "poi_row list" where
  "scenario_pois =
     replicate 25 \<lparr>p_category = Some ''Retail'', p_lat = 18, p_lon = 79\<rparr>
     @ replicate 10 \<lparr>p_category = Some ''Education'', p_lat = 18, p_lon = 79\<rparr>
     @ replicate 5 \<lparr>p_category = None, p_lat = 18, p_lon = 79\<rparr>"

definition scenario_facilities :: "string \<Rightarrow> string \<Rightarrow> string \<Rightarrow> table_scan" where
  "scenario_facilities t v s =
     (if t = ''ts_policestations'' then Scan [\<lparr>dist_m = 2000, n_lat = 18, n_lon = 79\<rparr>]
      else if t = ''ts_hospitals'' then Scan [\<lparr>dist_m = 3000, n_lat = 18, n_lon = 79\<rparr>]
      else Scan [\<lparr>dist_m = 500, n_lat = 18, n_lon = 79\<rparr>])"

definition scenario_env :: env where
  "scenario_env =
     \<lparr>survey_centroids = (\<lambda>v s. Inr [\<lparr>s_longitude = 79, s_latitude = 18\<rparr>]),
      MAPBOX_TOKEN = Some ''pk.test'',
      mapbox_isochrone = (\<lambda>lon lat m d t.
        Response True 200 [] (IsoData (Some [\<lparr>feature_geometry = Some walk_polygon\<rparr>]))),
      survey_buffer = (\<lambda>r v s. Inr [\<lparr>buffer_geom = Some buffer_polygon\<rparr>]),
      pois_in = (\<lambda>g. Inr scenario_pois),
      facility_table = scenario_facilities,
      ftl_overlap = (\<lambda>g. Inr [\<lparr>total_intersection = 0, isochrone_area = None\<rparr>]),
      tanks_in = (\<lambda>g. Inr [\<lparr>geojson = Some (FeatureCollection None)\<rparr>]),
      now_iso = ''2024-01-01T00:00:00.000Z''\<rparr>"

subsection \<open>Variants of the concrete parcel\<close>


definition point_env :: env where
  \<comment> \<open>The routing service answers with a point.\<close>
  "point_env = scenario_env
     \<lparr>mapbox_isochrone := (\<lambda>lon lat m d t. Response True 200 []
        (IsoData (Some [\<lparr>feature_geometry =
           Some \<lparr>gtype = ''Point'', coordinates = Arr [Num 79, Num 18]\<rparr>\<rparr>])))\<rparr>"

definition no_token_env :: env where
  "no_token_env = scenario_env \<lparr>MAPBOX_TOKEN := None\<rparr>"

definition no_poi_env :: env where
  "no_poi_env = scenario_env \<lparr>pois_in := (\<lambda>g. Inr [])\<rparr>"

definition empty_police_env :: env where
  "empty_police_env = scenario_env
     \<lparr>facility_table := (\<lambda>t v s. if t = ''ts_policestations'' then Scan []
                                  else scenario_facilities t v s)\<rparr>"

definition missing_police_env :: env where
  "missing_police_env = scenario_env
     \<lparr>facility_table := (\<lambda>t v s. if t = ''ts_policestations'' then NoSuchTable
                                  else scenario_facilities t v s)\<rparr>"

definition unknown_parcel_env :: env where
  "unknown_parcel_env = scenario_env \<lparr>survey_centroids := (\<lambda>v s. Inr [])\<rparr>"

section \<open>Properties\<close>

subsection \<open>Rounding to binary64\<close>

lemma ilog2_up_bounds: "1 \<le> x \<Longrightarrow> 2 ^ ilog2_up x \<le> x \<and> x < 2 ^ Suc (ilog2_up x)"
proof (induction x rule: ilog2_up.induct)
  case (1 x)
  show ?case
  proof (cases "x < 2")
    case True
    with 1 show ?thesis by (simp add: ilog2_up.simps [of x])
  next
    case False
    then have "1 \<le> x / 2" by simp
    with 1 False have "2 ^ ilog2_up (x / 2) \<le> x / 2 \<and> x / 2 < 2 ^ Suc (ilog2_up (x / 2))"
      by blast
    with False show ?thesis by (simp add: ilog2_up.simps [of x])
  qed
qed

lemma ilog2_down_bounds:
  "0 < x \<Longrightarrow> x < 1 \<Longrightarrow> 1 \<le> x * 2 ^ ilog2_down x \<and> x * 2 ^ ilog2_down x < 2"
proof (induction x rule: ilog2_down.induct)
  case (1 x)
  show ?case
  proof (cases "2 * x < 1")
    case True
    with 1 have "1 \<le> 2 * x * 2 ^ ilog2_down (2 * x) \<and> 2 * x * 2 ^ ilog2_down (2 * x) < 2"
      by simp
    with 1 show ?thesis by (simp add: ilog2_down.simps [of x] mult_ac)
  next
    case False
    then have "ilog2_down (2 * x) = 0" by (simp add: ilog2_down.simps [of "2 * x"])
    with 1 False show ?thesis by (simp add: ilog2_down.simps [of x])
  qed
qed

lemma ilog2_bounds:
  assumes "0 < x"
  shows "2 powi ilog2 x \<le> x" and "x < 2 powi (ilog2 x + 1)"
proof -
  show "2 powi ilog2 x \<le> x"
  proof (cases "1 \<le> x")
    case True
    with ilog2_up_bounds [OF True] show ?thesis by (simp add: ilog2_def)
  next
    case False
    with assms ilog2_down_bounds [of x]
    have "1 \<le> x * 2 ^ ilog2_down x" by simp
    then have "1 / 2 ^ ilog2_down x \<le> x" by (simp add: field_simps)
    with False show ?thesis by (simp add: ilog2_def power_int_minus_divide)
  qed
  show "x < 2 powi (ilog2 x + 1)"
  proof (cases "1 \<le> x")
    case True
    have "int (ilog2_up x) + 1 = int (Suc (ilog2_up x))" by simp
    with ilog2_up_bounds [OF True] True show ?thesis
      by (simp only: ilog2_def if_True power_int_of_nat)
  next
    case False
    with assms ilog2_down_bounds [of x]
    have lt: "x * 2 ^ ilog2_down x < 2" and ge: "1 \<le> x * 2 ^ ilog2_down x" by simp_all
    from False assms have "ilog2_down x \<noteq> 0"
      by (simp add: ilog2_down.simps [of x])
    then obtain k where k: "ilog2_down x = Suc k" by (cases "ilog2_down x") auto
    from lt k have "x * 2 ^ k < 1" by simp
    then have "x < 1 / 2 ^ k" by (simp add: field_simps)
    moreover have "- int (Suc k) + 1 = - int k" by simp
    ultimately show ?thesis using False k
      by (simp add: ilog2_def power_int_minus_divide)
  qed
qed

lemma pow2_less_iff: "(2::rat) powi a < 2 powi b \<longleftrightarrow> a < b"
proof
  assume "(2::rat) powi a < 2 powi b"
  show "a < b"
  proof (rule ccontr)
    assume "\<not> a < b"
    then have "b \<le> a" by simp
    then have "(2::rat) powi b \<le> 2 powi a" by (rule power_int_increasing) simp
    with \<open>(2::rat) powi a < 2 powi b\<close> show False by simp
  qed
next
  assume "a < b"
  then show "(2::rat) powi a < 2 powi b" by (rule power_int_strict_increasing) simp
qed

lemma pow2_le_iff: "(2::rat) powi a \<le> 2 powi b \<longleftrightarrow> a \<le> b"
  using pow2_less_iff [of b a] by (simp add: not_less [symmetric])

lemma pow2_pos [simp]: "0 < (2::rat) powi a"
  by (simp add: zero_less_power_int)

lemma pow2_add: "(2::rat) powi (a + b) = 2 powi a * 2 powi b"
  by (simp add: power_int_add)

lemma ilog2_unique:
  assumes "2 powi e \<le> x" and "x < 2 powi (e + 1)"
  shows "ilog2 x = e"
proof -
  have pos: "0 < x"
    using assms(1) pow2_pos [of e] by linarith
  note b = ilog2_bounds [OF pos]
  have "(2::rat) powi e < 2 powi (ilog2 x + 1)" using assms(1) b(2) by simp
  then have "e < ilog2 x + 1" by (simp only: pow2_less_iff)
  moreover have "(2::rat) powi ilog2 x < 2 powi (e + 1)" using assms(2) b(1) by simp
  then have "ilog2 x < e + 1" by (simp only: pow2_less_iff)
  ultimately show ?thesis by simp
qed


lemma ilog2_mono:
  assumes "0 < x" and "x \<le> y"
  shows "ilog2 x \<le> ilog2 y"
proof -
  from assms have y: "0 < y" by simp
  have "2 powi ilog2 x \<le> x" using assms(1) by (rule ilog2_bounds)
  also note \<open>x \<le> y\<close>
  also have "y < 2 powi (ilog2 y + 1)" using y by (rule ilog2_bounds)
  finally have "ilog2 x < ilog2 y + 1" by (simp only: pow2_less_iff)
  then show ?thesis by simp
qed

lemma round_even_of_int [simp]: "round_even (of_int n) = n"
  by (simp add: round_even_def)

lemma round_even_cases:
  "round_even y = \<lfloor>y\<rfloor> \<and> y - of_int \<lfloor>y\<rfloor> \<le> 1 / 2
   \<or> round_even y = \<lfloor>y\<rfloor> + 1 \<and> 1 / 2 \<le> y - of_int \<lfloor>y\<rfloor>"
  by (auto simp: round_even_def Let_def)

lemma round_even_mono:
  assumes "x \<le> y"
  shows "round_even x \<le> round_even y"
proof (cases "\<lfloor>x\<rfloor> = \<lfloor>y\<rfloor>")
  case True
  with assms show ?thesis by (auto simp: round_even_def Let_def)
next
  case False
  with assms have "\<lfloor>x\<rfloor> + 1 \<le> \<lfloor>y\<rfloor>" using floor_mono [OF assms] by simp
  moreover have "round_even x \<le> \<lfloor>x\<rfloor> + 1" using round_even_cases [of x] by auto
  moreover have "\<lfloor>y\<rfloor> \<le> round_even y" using round_even_cases [of y] by auto
  ultimately show ?thesis by simp
qed

lemma floor_minus_nonint:
  assumes "y \<noteq> of_int \<lfloor>y\<rfloor>"
  shows "\<lfloor>- y\<rfloor> = - \<lfloor>y\<rfloor> - 1"
proof -
  have "of_int \<lfloor>y\<rfloor> < y" using assms of_int_floor_le [of y] by linarith
  moreover have "y < of_int \<lfloor>y\<rfloor> + 1" by linarith
  ultimately have "of_int (- \<lfloor>y\<rfloor> - 1) \<le> - y" "- y < of_int (- \<lfloor>y\<rfloor> - 1) + 1"
    by simp_all
  then show ?thesis by (simp only: floor_unique)
qed

lemma round_even_minus: "round_even (- y) = - round_even y"
proof (cases "y = of_int \<lfloor>y\<rfloor>")
  case True
  then obtain n where "y = of_int n" ..
  then have "- y = of_int (- n)" by simp
  with \<open>y = of_int n\<close> show ?thesis by (simp only: round_even_of_int)
next
  case False
  note f = floor_minus_nonint [OF False]
  have r: "- y - of_int (- \<lfloor>y\<rfloor> - 1) = 1 - (y - of_int \<lfloor>y\<rfloor>)" by simp
  show ?thesis
    unfolding round_even_def Let_def f r by auto
qed

lemma quantum_pos [simp]: "0 < quantum x"
  by (simp add: quantum_def)

lemma quantum_minus [simp]: "quantum (- x) = quantum x"
  by (simp add: quantum_def)

lemma binary64_0 [simp]: "binary64 0 = 0"
  by (simp add: binary64_def)

lemma binary64_minus: "binary64 (- x) = - binary64 x"
  by (simp add: binary64_def round_even_minus)

lemma binary64_nonneg: "0 \<le> x \<Longrightarrow> 0 \<le> binary64 x"
proof -
  assume "0 \<le> x"
  then have "0 \<le> x / quantum x"
    using quantum_pos [of x] by (intro divide_nonneg_pos)
  then have "round_even 0 \<le> round_even (x / quantum x)" by (rule round_even_mono)
  then have "0 \<le> round_even (x / quantum x)" using round_even_of_int [of 0] by simp
  then have "0 \<le> of_int (round_even (x / quantum x)) * quantum x"
    by (intro mult_nonneg_nonneg less_imp_le [OF quantum_pos]) simp
  then show ?thesis by (simp add: binary64_def)
qed

lemma binary64_nonpos: "x \<le> 0 \<Longrightarrow> binary64 x \<le> 0"
  using binary64_nonneg [of "- x"] by (simp add: binary64_minus)

lemma quantum_eqI:
  assumes "2 powi e \<le> \<bar>x\<bar>" and "\<bar>x\<bar> < 2 powi (e + 1)" and "- 1022 \<le> e"
  shows "quantum x = 2 powi (e - 52)"
  using ilog2_unique [OF assms(1,2)] assms(3) by (simp add: quantum_def)

lemma binary64_eqI:
  assumes "2 powi e \<le> \<bar>x\<bar>" and "\<bar>x\<bar> < 2 powi (e + 1)" and "- 1022 \<le> e"
  shows "binary64 x = of_int (round_even (x / 2 powi (e - 52))) * 2 powi (e - 52)"
proof -
  have "0 < \<bar>x\<bar>" using assms(1) pow2_pos [of e] by linarith
  then have "x \<noteq> 0" by simp
  then show ?thesis by (simp add: binary64_def quantum_eqI [OF assms])
qed

lemma binary64_exact:
  assumes m: "\<bar>m\<bar> < 2 ^ 53" and k: "- 1074 \<le> k"
  shows "binary64 (of_int m * 2 powi k) = of_int m * 2 powi k"
proof (cases "m = 0")
  case True
  then show ?thesis by simp
next
  case False
  define x :: rat where "x = of_int m * 2 powi k"
  define E where "E = max (ilog2 \<bar>x\<bar>) (- 1022)"
  have q: "quantum x = 2 powi (E - 52)" by (simp add: quantum_def E_def)
  from False have nz: "x \<noteq> 0" by (simp add: x_def)
  then have pos: "0 < \<bar>x\<bar>" by simp
  have "\<bar>x\<bar> = of_int \<bar>m\<bar> * 2 powi k" by (simp add: x_def abs_mult)
  also have "\<dots> < of_int (2 ^ 53) * 2 powi k"
    using m by (intro mult_strict_right_mono) (simp_all only: of_int_less_iff pow2_pos)
  also have "\<dots> = 2 powi (k + 53)" by (simp add: pow2_add)
  finally have "2 powi ilog2 \<bar>x\<bar> < (2::rat) powi (k + 53)"
    using ilog2_bounds(1) [OF pos] by simp
  then have "ilog2 \<bar>x\<bar> < k + 53" by (simp only: pow2_less_iff)
  with k have j: "0 \<le> k - (E - 52)" by (simp add: E_def)
  define n where "n = nat (k - (E - 52))"
  have split: "(2::rat) powi k = 2 ^ n * 2 powi (E - 52)"
  proof -
    have "(2::rat) ^ n = 2 powi (k - (E - 52))"
      using j by (simp add: n_def power_int_nonneg_exp)
    then have "(2::rat) ^ n * 2 powi (E - 52) = 2 powi (k - (E - 52) + (E - 52))"
      by (simp only: pow2_add)
    then show ?thesis by simp
  qed
  have xs: "x = of_int (m * 2 ^ n) * 2 powi (E - 52)"
    by (simp add: x_def split)
  have "x / 2 powi (E - 52) = of_int (m * 2 ^ n)"
    by (subst xs) simp
  then have "x / quantum x = of_int (m * 2 ^ n)"
    by (simp only: q)
  then have "round_even (x / quantum x) = m * 2 ^ n"
    by (simp only: round_even_of_int)
  with nz have "binary64 x = of_int (m * 2 ^ n) * 2 powi (E - 52)"
    by (simp add: binary64_def q)
  also have "\<dots> = x" by (rule xs [symmetric])
  finally show ?thesis by (simp only: x_def)
qed


lemma pow2_mult_eq: "a + b = c \<Longrightarrow> (2::rat) powi a * 2 powi b = 2 powi c"
  using pow2_add [of a b] by simp

lemma round_quotient_le:
  assumes "0 < x"
  shows "round_even (x / quantum x) \<le> 2 ^ 53"
proof -
  define E where "E = max (ilog2 \<bar>x\<bar>) (- 1022)"
  have q: "quantum x = 2 powi (E - 52)" by (simp add: quantum_def E_def)
  have "ilog2 x + 1 \<le> E + 1" using assms by (simp add: E_def)
  then have "(2::rat) powi (ilog2 x + 1) \<le> 2 powi (E + 1)" by (simp only: pow2_le_iff)
  moreover have "x < 2 powi (ilog2 x + 1)" using assms by (rule ilog2_bounds)
  moreover have "(2::rat) powi 53 * 2 powi (E - 52) = 2 powi (E + 1)"
    by (rule pow2_mult_eq) simp
  ultimately have "x < 2 powi 53 * 2 powi (E - 52)" by linarith
  then have "x / 2 powi (E - 52) < 2 powi 53"
    by (simp add: pos_divide_less_eq)
  then have "x / quantum x \<le> of_int (2 ^ 53)" by (simp add: q)
  then have "round_even (x / quantum x) \<le> round_even (of_int (2 ^ 53))"
    by (rule round_even_mono)
  then show ?thesis by (simp only: round_even_of_int)
qed

lemma binary64_le_next_binade:
  assumes "0 < x"
  shows "binary64 x \<le> 2 powi (max (ilog2 x) (- 1022) + 1)"
proof -
  define E where "E = max (ilog2 x) (- 1022)"
  have q: "quantum x = 2 powi (E - 52)" using assms by (simp add: quantum_def E_def)
  have "(of_int (round_even (x / quantum x)) :: rat) \<le> of_int (2 ^ 53)"
    using round_quotient_le [OF assms] by (simp only: of_int_le_iff)
  then have "of_int (round_even (x / quantum x)) * quantum x \<le> of_int (2 ^ 53) * quantum x"
    by (intro mult_right_mono less_imp_le [OF quantum_pos])
  moreover have "of_int (2 ^ 53) * quantum x = 2 powi 53 * 2 powi (E - 52)" by (simp add: q)
  moreover have "(2::rat) powi 53 * 2 powi (E - 52) = 2 powi (E + 1)"
    by (rule pow2_mult_eq) simp
  moreover have "binary64 x = of_int (round_even (x / quantum x)) * quantum x"
    using assms by (simp add: binary64_def)
  ultimately show ?thesis unfolding E_def by linarith
qed

lemma binary64_ge_binade:
  assumes "0 < y" and "- 1022 \<le> ilog2 y"
  shows "2 powi ilog2 y \<le> binary64 y"
proof -
  define E where "E = ilog2 y"
  have q: "quantum y = 2 powi (E - 52)" using assms by (simp add: quantum_def E_def)
  have split: "(2::rat) powi 52 * 2 powi (E - 52) = 2 powi E"
    by (rule pow2_mult_eq) simp
  have "2 powi E \<le> y" unfolding E_def using assms(1) by (rule ilog2_bounds)
  with split have "2 powi 52 * 2 powi (E - 52) \<le> y" by simp
  then have "2 powi 52 \<le> y / 2 powi (E - 52)"
    by (simp add: pos_le_divide_eq)
  then have "of_int (2 ^ 52) \<le> y / quantum y" by (simp add: q)
  then have "round_even (of_int (2 ^ 52)) \<le> round_even (y / quantum y)"
    by (rule round_even_mono)
  then have "(of_int (2 ^ 52) :: rat) \<le> of_int (round_even (y / quantum y))"
    by (simp only: round_even_of_int of_int_le_iff)
  then have "of_int (2 ^ 52) * quantum y \<le> of_int (round_even (y / quantum y)) * quantum y"
    by (intro mult_right_mono less_imp_le [OF quantum_pos])
  moreover have "of_int (2 ^ 52) * quantum y = 2 powi 52 * 2 powi (E - 52)" by (simp add: q)
  moreover have "binary64 y = of_int (round_even (y / quantum y)) * quantum y"
    using assms(1) by (simp add: binary64_def)
  ultimately show ?thesis using split unfolding E_def by linarith
qed

lemma binary64_mono_pos:
  assumes "0 < x" and "x \<le> y"
  shows "binary64 x \<le> binary64 y"
proof -
  from assms have y: "0 < y" by simp
  define Ex where "Ex = max (ilog2 x) (- 1022)"
  define Ey where "Ey = max (ilog2 y) (- 1022)"
  have le: "Ex \<le> Ey" using ilog2_mono [OF assms] by (simp add: Ex_def Ey_def)
  show ?thesis
  proof (cases "Ex = Ey")
    case True
    then have q: "quantum x = quantum y"
      using assms(1) y by (simp add: quantum_def Ex_def Ey_def)
    have "x / quantum y \<le> y / quantum y"
      using assms(2) by (intro divide_right_mono less_imp_le [OF quantum_pos])
    then have "round_even (x / quantum y) \<le> round_even (y / quantum y)"
      by (rule round_even_mono)
    then have "(of_int (round_even (x / quantum y)) :: rat) \<le> of_int (round_even (y / quantum y))"
      by (simp only: of_int_le_iff)
    then have "of_int (round_even (x / quantum y)) * quantum y
        \<le> of_int (round_even (y / quantum y)) * quantum y"
      by (intro mult_right_mono less_imp_le [OF quantum_pos])
    with assms(1) y show ?thesis by (simp add: binary64_def q)
  next
    case False
    with le have lt: "Ex < Ey" by simp
    have "- 1022 \<le> Ex" by (simp add: Ex_def)
    with lt have "- 1022 < Ey" by simp
    then have ey: "ilog2 y = Ey" "- 1022 \<le> ilog2 y" by (simp_all add: Ey_def max_def split: if_splits)
    have "binary64 x \<le> 2 powi (Ex + 1)"
      unfolding Ex_def using assms(1) by (rule binary64_le_next_binade)
    also have "\<dots> \<le> 2 powi Ey" using lt by (simp only: pow2_le_iff)
    also have "\<dots> \<le> binary64 y"
      using binary64_ge_binade [OF y ey(2)] by (simp only: ey(1))
    finally show ?thesis .
  qed
qed

lemma binary64_mono:
  assumes "x \<le> y"
  shows "binary64 x \<le> binary64 y"
proof -
  consider "0 < x" | "x \<le> 0" "0 \<le> y" | "y < 0" by linarith
  then show ?thesis
  proof cases
    case 1
    then show ?thesis using assms by (rule binary64_mono_pos)
  next
    case 2
    then have "binary64 x \<le> 0" "0 \<le> binary64 y"
      by (simp_all add: binary64_nonpos binary64_nonneg)
    then show ?thesis by simp
  next
    case 3
    with assms have "0 < - y" "- y \<le> - x" by simp_all
    then have "binary64 (- y) \<le> binary64 (- x)" by (rule binary64_mono_pos)
    then show ?thesis by (simp add: binary64_minus)
  qed
qed

lemma binary64_repr_pos:
  assumes "0 < x"
  shows "\<exists>m k. binary64 x = of_int m * 2 powi k \<and> \<bar>m\<bar> < 2 ^ 53 \<and> - 1074 \<le> k"
proof -
  define E where "E = max (ilog2 \<bar>x\<bar>) (- 1022)"
  define r where "r = round_even (x / quantum x)"
  have q: "quantum x = 2 powi (E - 52)" by (simp add: quantum_def E_def)
  have b: "binary64 x = of_int r * 2 powi (E - 52)"
    using assms by (simp add: binary64_def r_def q)
  have hi: "r \<le> 2 ^ 53" unfolding r_def using assms by (rule round_quotient_le)
  have "0 \<le> x / quantum x" using assms by (intro divide_nonneg_pos quantum_pos) simp
  then have "round_even 0 \<le> r" unfolding r_def by (rule round_even_mono)
  then have lo: "0 \<le> r" using round_even_of_int [of 0] by simp
  have E: "- 1022 \<le> E" by (simp add: E_def)
  show ?thesis
  proof (cases "r = 2 ^ 53")
    case True
    have "binary64 x = 2 powi 53 * 2 powi (E - 52)" using b True by simp
    also have "\<dots> = 2 powi 52 * 2 powi (E - 51)"
      by (simp only: pow2_mult_eq [of 53 "E - 52" "E + 1"] pow2_mult_eq [of 52 "E - 51" "E + 1"])
    also have "\<dots> = of_int (2 ^ 52) * 2 powi (E - 51)" by simp
    finally have "binary64 x = of_int (2 ^ 52) * 2 powi (E - 51)" .
    moreover have "\<bar>2 ^ 52 :: int\<bar> < 2 ^ 53" by simp
    moreover have "- 1074 \<le> E - 51" using E by simp
    ultimately show ?thesis by blast
  next
    case False
    with hi lo have "\<bar>r\<bar> < 2 ^ 53" by simp
    moreover have "- 1074 \<le> E - 52" using E by simp
    ultimately show ?thesis using b by blast
  qed
qed

lemma binary64_repr: "\<exists>m k. binary64 x = of_int m * 2 powi k \<and> \<bar>m\<bar> < 2 ^ 53 \<and> - 1074 \<le> k"
proof -
  consider "0 < x" | "x = 0" | "x < 0" by linarith
  then show ?thesis
  proof cases
    case 1
    then show ?thesis by (rule binary64_repr_pos)
  next
    case 2
    have "binary64 x = of_int 0 * 2 powi 0" using 2 by simp
    moreover have "\<bar>0 :: int\<bar> < 2 ^ 53" "- 1074 \<le> (0 :: int)" by simp_all
    ultimately show ?thesis by blast
  next
    case 3
    then have "0 < - x" by simp
    from binary64_repr_pos [OF this] obtain m k
      where "binary64 (- x) = of_int m * 2 powi k" "\<bar>m\<bar> < 2 ^ 53" "- 1074 \<le> k" by blast
    then have "binary64 x = of_int (- m) * 2 powi k" "\<bar>- m\<bar> < 2 ^ 53"
      by (simp_all add: binary64_minus)
    with \<open>- 1074 \<le> k\<close> show ?thesis by blast
  qed
qed

lemma binary64_idem [simp]: "binary64 (binary64 x) = binary64 x"
proof -
  from binary64_repr [of x] obtain m k
    where "binary64 x = of_int m * 2 powi k" "\<bar>m\<bar> < 2 ^ 53" "- 1074 \<le> k" by blast
  then show ?thesis by (simp only: binary64_exact)
qed

lemma binary64_of_int [simp]: "\<bar>n\<bar> < 2 ^ 53 \<Longrightarrow> binary64 (of_int n) = of_int n"
  using binary64_exact [of n 0] by simp

lemma binary64_numeral [simp]: "numeral w < (2 ^ 53 :: int) \<Longrightarrow> binary64 (numeral w) = numeral w"
  using binary64_of_int [of "numeral w"] by simp

lemma round_even_eqI:
  assumes "of_int n - 1 / 2 < y" and "y < of_int n + 1 / 2"
  shows "round_even y = n"
proof -
  consider "of_int n \<le> y" | "y < of_int n" by linarith
  then show ?thesis
  proof cases
    case 1
    with assms have "\<lfloor>y\<rfloor> = n" by linarith
    with assms show ?thesis by (simp add: round_even_def Let_def)
  next
    case 2
    with assms have f: "\<lfloor>y\<rfloor> = n - 1" by linarith
    with assms show ?thesis by (auto simp: round_even_def Let_def)
  qed
qed

lemma binary64_evalI:
  assumes "2 powi e \<le> \<bar>x\<bar>" and "\<bar>x\<bar> < 2 powi (e + 1)" and "- 1022 \<le> e"
    and "of_int n - 1 / 2 < x / 2 powi (e - 52)" and "x / 2 powi (e - 52) < of_int n + 1 / 2"
  shows "binary64 x = of_int n * 2 powi (e - 52)"
  using binary64_eqI [OF assms(1,2,3)] round_even_eqI [OF assms(4,5)] by simp

lemma binary64_half_integer:
  "\<bar>n\<bar> < 2 ^ 53 \<Longrightarrow> binary64 (of_int n / 2) = of_int n / 2"
  using binary64_exact [of n "- 1"] by (simp add: power_int_minus_divide)

lemma fadd_0 [simp]: "fadd 0 (binary64 x) = binary64 x" "fadd (binary64 x) 0 = binary64 x"
  by (simp_all add: fadd_def)

lemma fadd_0_0 [simp]: "fadd 0 0 = 0"
  by (simp add: fadd_def)

lemma f_nonneg:
  "0 \<le> a \<Longrightarrow> 0 \<le> b \<Longrightarrow> 0 \<le> fadd a b"
  "0 \<le> a \<Longrightarrow> 0 \<le> b \<Longrightarrow> 0 \<le> fmul a b"
  "0 \<le> a \<Longrightarrow> 0 \<le> b \<Longrightarrow> 0 \<le> fdiv a b"
  by (simp_all add: fadd_def fmul_def fdiv_def binary64_nonneg)

lemma fadd_le:
  assumes "a \<le> of_int m" and "b \<le> of_int n" and "\<bar>m + n\<bar> < 2 ^ 53"
  shows "fadd a b \<le> of_int (m + n)"
proof -
  have "a + b \<le> of_int (m + n)" using assms(1,2) by simp
  then have "binary64 (a + b) \<le> binary64 (of_int (m + n))" by (rule binary64_mono)
  with assms(3) show ?thesis by (simp only: fadd_def binary64_of_int)
qed

subsection \<open>The call log and the shape of a successful run\<close>

lemma fst_io_return [simp]: "fst (io_return x) = Inr x"
  and snd_io_return [simp]: "snd (io_return x) = []"
  and fst_io_throw [simp]: "fst (io_throw err) = Inl err"
  and snd_io_throw [simp]: "snd (io_throw err) = []"
  and fst_io_call [simp]: "fst (io_call ev a) = a"
  and snd_io_call [simp]: "snd (io_call ev a) = [ev]"
  by (simp_all add: io_return_def io_throw_def io_call_def)

lemma fst_io_bind_Inr_iff:
  "fst (io_bind m f) = Inr y \<longleftrightarrow> (\<exists>x. fst m = Inr x \<and> fst (f x) = Inr y)"
  by (cases "fst m") (simp_all add: io_bind_def)

lemma io_bind_Inr: "fst m = Inr x \<Longrightarrow> io_bind m f = (fst (f x), snd m @ snd (f x))"
  by (simp add: io_bind_def)

lemma io_bind_Inl: "fst m = Inl err \<Longrightarrow> io_bind m f = (Inl err, snd m)"
  by (simp add: io_bind_def)

lemma analyzeLocation_Success_iff:
  "fst (analyzeLocation e v s) = Success r \<longleftrightarrow>
     (\<exists>survey rest token g uf poiRows cm pol hos road ftlRows tanksRows.
        survey_centroids e v s = Inr (survey # rest)
      \<and> truthy (MAPBOX_TOKEN e) = Some token
      \<and> fst (resolve_isochrone e v s (s_longitude survey) (s_latitude survey) token) = Inr (g, uf)
      \<and> pois_in e g = Inr poiRows
      \<and> categoryMap_forEach [] poiRows = Inr cm
      \<and> fst (getNearestFeature e v s ''ts_policestations'') = Inr pol
      \<and> fst (getNearestFeature e v s ''ts_hospitals'') = Inr hos
      \<and> fst (getNearestFeature e v s ''ts_main_roads'') = Inr road
      \<and> ftl_overlap e g = Inr ftlRows
      \<and> tanks_in e g = Inr tanksRows
      \<and> r = assemble e v s survey g uf poiRows cm pol hos road ftlRows tanksRows)"
  (is "?L \<longleftrightarrow> ?R")
proof
  assume L: ?L
  then have t: "fst (analyzeLocation_try e v s) = Inr (Success r)"
    by (auto simp: analyzeLocation_def Let_def split: sum.splits)
  show ?R
  proof (cases "survey_centroids e v s")
    case (Inl err)
    with t show ?thesis by (simp add: analyzeLocation_try_def io_bind_Inl)
  next
    case (Inr surveyRows)
    show ?thesis
    proof (cases surveyRows)
      case Nil
      with t Inr show ?thesis by (simp add: analyzeLocation_try_def io_bind_Inr)
    next
      case (Cons survey rest)
      show ?thesis
      proof (cases "truthy (MAPBOX_TOKEN e)")
        case None
        with t Inr Cons show ?thesis by (simp add: analyzeLocation_try_def io_bind_Inr)
      next
        case (Some token)
        with t Inr Cons show ?thesis
          by (simp add: analyzeLocation_try_def io_bind_Inr fst_io_bind_Inr_iff split: prod.splits)
            blast
      qed
    qed
  qed
next
  assume ?R
  then show ?L
    by (auto simp: analyzeLocation_def analyzeLocation_try_def Let_def io_bind_Inr)
qed

subsection \<open>Grouping the points of interest\<close>

lemma map_fst_push_location [simp]: "map fst (push_location k l m) = map fst m"
  by (induction m) (auto simp: push_location_def)

lemma in_keysI: "(k, ls) \<in> set m \<Longrightarrow> k \<in> fst ` set m"
  by force

lemma map_of_push_location:
  "map_of (push_location k l m) k' =
     (if k' = k then map_option (\<lambda>ls. ls @ [l]) (map_of m k) else map_of m k')"
  by (induction m) (auto simp: push_location_def)

lemma locations_at_push_location:
  assumes "k \<in> set (map fst m)"
  shows "locations_at (push_location k l m) k' =
           (if k' = k then locations_at m k @ [l] else locations_at m k')"
proof -
  from assms have "map_of m k \<noteq> None" by (simp add: map_of_eq_None_iff)
  then show ?thesis
    by (auto simp: locations_at_def map_of_push_location)
qed

lemma locations_at_notin: "k \<notin> set (map fst m) \<Longrightarrow> locations_at m k = []"
proof -
  assume "k \<notin> set (map fst m)"
  then have "map_of m k = None" by (simp add: map_of_eq_None_iff)
  then show ?thesis by (simp add: locations_at_def)
qed

lemma locations_at_append_new:
  assumes "k \<notin> set (map fst m)"
  shows "locations_at (m @ [(k, [l])]) k' = (if k' = k then [l] else locations_at m k')"
proof -
  from assms have "map_of m k = None" by (simp add: map_of_eq_None_iff)
  then show ?thesis
    by (simp add: locations_at_def map_add_def split: option.splits)
qed

lemma sum_push_location:
  "distinct (map fst m) \<Longrightarrow> k \<in> set (map fst m) \<Longrightarrow>
   sum_list (map (\<lambda>kv. length (snd kv)) (push_location k l m))
     = Suc (sum_list (map (\<lambda>kv. length (snd kv)) m))"
proof (induction m)
  case Nil
  then show ?case by simp
next
  case (Cons a m)
  obtain k' ls where a: "a = (k', ls)" by (cases a)
  show ?case
  proof (cases "k' = k")
    case True
    with Cons.prems a have "k \<notin> set (map fst m)" by auto
    then have "push_location k l m = m"
      by (induction m) (auto simp: push_location_def)
    with True a show ?thesis by (simp add: push_location_def)
  next
    case False
    with Cons a show ?thesis by (auto simp: push_location_def)
  qed
qed

lemma keys_push_location [simp]: "fst ` set (push_location k l m) = fst ` set m"
proof -
  have "set (map fst (push_location k l m)) = set (map fst m)" by simp
  then show ?thesis by (simp only: set_map)
qed

lemma categoryMap_add_cases:
  assumes "categoryMap_add m poi = Inr m'"
  obtains (own) "key_of poi \<in> set (map fst m)"
      and "m' = push_location (key_of poi) (location_of poi) m"
    | (fresh) "key_of poi \<notin> set (map fst m)"
      and "key_of poi \<notin> set Object_prototype_properties"
      and "m' = m @ [(key_of poi, [location_of poi])]"
  using assms
  by (auto simp: categoryMap_add_def Let_def key_of_def location_of_def split: if_splits)

lemma categoryMap_add_Inr:
  assumes "categoryMap_add m poi = Inr m'" and "distinct (map fst m)"
  shows "distinct (map fst m')
       \<and> set (map fst m') = insert (key_of poi) (set (map fst m))
       \<and> (\<forall>k. locations_at m' k =
             (if k = key_of poi then locations_at m k @ [location_of poi] else locations_at m k))
       \<and> sum_list (map (\<lambda>kv. length (snd kv)) m')
           = Suc (sum_list (map (\<lambda>kv. length (snd kv)) m))"
  using assms(1)
proof (cases rule: categoryMap_add_cases)
  case own
  have "set (map fst m') = insert (key_of poi) (set (map fst m))"
    using own by (simp only: map_fst_push_location) auto
  with own assms(2) show ?thesis
    by (simp add: locations_at_push_location sum_push_location del: set_map)
next
  case fresh
  with assms(2) show ?thesis
    by (simp add: locations_at_append_new locations_at_notin del: set_map)
qed

lemma categoryMap_forEach_Inr:
  assumes "categoryMap_forEach m rows = Inr m'" and "distinct (map fst m)"
  shows "distinct (map fst m')
       \<and> set (map fst m') = set (map fst m) \<union> key_of ` set rows
       \<and> (\<forall>k. locations_at m' k
                = locations_at m k @ map location_of (filter (\<lambda>p. key_of p = k) rows))
       \<and> sum_list (map (\<lambda>kv. length (snd kv)) m')
           = sum_list (map (\<lambda>kv. length (snd kv)) m) + length rows"
  using assms
proof (induction rows arbitrary: m)
  case Nil
  then show ?case by simp
next
  case (Cons poi rows)
  from Cons.prems(1) obtain m1 where m1: "categoryMap_add m poi = Inr m1"
    and rest: "categoryMap_forEach m1 rows = Inr m'"
    by (auto split: sum.splits)
  note step = categoryMap_add_Inr [OF m1 Cons.prems(2)]
  from step have d1: "distinct (map fst m1)" by blast
  from Cons.IH [OF rest d1] step show ?case
    by auto
qed

lemma categoryMap_forEach_succeeds_iff:
  assumes "set (map fst m) \<inter> set Object_prototype_properties = {}"
  shows "(\<exists>m'. categoryMap_forEach m rows = Inr m')
           \<longleftrightarrow> list_all (\<lambda>p. key_of p \<notin> set Object_prototype_properties) rows"
  using assms
proof (induction rows arbitrary: m)
  case Nil
  then show ?case by simp
next
  case (Cons poi rows)
  show ?case
  proof (cases "categoryMap_add m poi")
    case (Inl err)
    then have "key_of poi \<in> set Object_prototype_properties"
      by (auto simp: categoryMap_add_def Let_def key_of_def split: if_splits)
    with Inl show ?thesis by simp
  next
    case (Inr m1)
    have keys: "set (map fst m1) \<inter> set Object_prototype_properties = {}"
      using Inr
    proof (cases rule: categoryMap_add_cases)
      case own
      with Cons.prems show ?thesis by (simp only: map_fst_push_location)
    next
      case fresh
      with Cons.prems show ?thesis by auto
    qed
    have "key_of poi \<notin> set Object_prototype_properties"
      using Inr Cons.prems
      by (auto simp: categoryMap_add_def Let_def key_of_def split: if_splits)
    with Inr Cons.IH [OF keys] show ?thesis by simp
  qed
qed

lemma sum_list_insort_key:
  "sum_list (map f (insort_key k x xs)) = f x + sum_list (map f xs)"
  for f :: "'a \<Rightarrow> nat"
  by (induction xs) auto

lemma sum_list_sort_key:
  "sum_list (map f (sort_key k xs)) = sum_list (map f xs)"
  for f :: "'a \<Rightarrow> nat"
  by (induction xs) (auto simp: sum_list_insort_key)

lemma sum_list_filter_split:
  "sum_list (map f (filter P xs)) + sum_list (map f (filter (\<lambda>x. \<not> P x) xs)) = sum_list (map f xs)"
  for f :: "'a \<Rightarrow> nat"
  by (induction xs) auto

lemma set_Object_entries [simp]: "set (Object_entries m) = set m"
  by (auto simp: Object_entries_def)

lemma length_Object_entries [simp]: "length (Object_entries m) = length m"
  by (simp add: Object_entries_def sum_length_filter_compl)

lemma sum_list_Object_entries:
  "sum_list (map f (Object_entries m)) = sum_list (map f m)"
  for f :: "string \<times> location list \<Rightarrow> nat"
  by (simp add: Object_entries_def sum_list_sort_key sum_list_filter_split)

lemma distinct_map_sort_key:
  "distinct (map f (sort_key k xs)) \<longleftrightarrow> distinct (map f xs)"
  by (simp add: distinct_map)

lemma distinct_keys_Object_entries:
  "distinct (map fst m) \<Longrightarrow> distinct (map fst (Object_entries m))"
  by (auto simp: Object_entries_def distinct_map_sort_key distinct_map_filter)

lemma foldl_add_sum_list:
  "foldl (\<lambda>acc x. acc + f x) a xs = a + sum_list (map f xs)"
  for f :: "'a \<Rightarrow> nat"
  by (induction xs arbitrary: a) auto

lemma set_poiBreakdown_of:
  "set (poiBreakdown_of m n) =
     (\<lambda>(k, ls). \<lparr>category = k, count = length ls, percent = percent_of (length ls) n,
                  locations = ls\<rparr>) ` set m"
  by (simp add: poiBreakdown_of_def)

lemma length_poiBreakdown_of [simp]: "length (poiBreakdown_of m n) = length m"
  by (simp add: poiBreakdown_of_def)

lemma sum_count_poiBreakdown_of:
  "sum_list (map count (poiBreakdown_of m n)) = sum_list (map (\<lambda>kv. length (snd kv)) m)"
proof -
  have "sum_list (map count (poiBreakdown_of m n))
      = sum_list (map (\<lambda>kv. length (snd kv)) (Object_entries m))"
    by (simp add: poiBreakdown_of_def sum_list_sort_key comp_def case_prod_unfold)
  then show ?thesis by (simp add: sum_list_Object_entries)
qed

lemma distinct_category_poiBreakdown_of:
  assumes "distinct (map fst m)"
  shows "distinct (map category (poiBreakdown_of m n))"
proof -
  have "map category (map (\<lambda>(k, ls). \<lparr>category = k, count = length ls,
           percent = percent_of (length ls) n, locations = ls\<rparr>) (Object_entries m))
        = map fst (Object_entries m)"
    by (simp add: comp_def case_prod_unfold)
  with distinct_keys_Object_entries [OF assms] show ?thesis
    by (simp add: poiBreakdown_of_def distinct_map_sort_key del: map_map)
qed

lemma categoryMap_entry:
  assumes run: "categoryMap_forEach [] rows = Inr m" and kv: "(k, ls) \<in> set m"
  shows "ls = map location_of (filter (\<lambda>p. key_of p = k) rows)"
    and "k \<in> key_of ` set rows"
    and "ls \<noteq> []"
proof -
  note facts = categoryMap_forEach_Inr [OF run, simplified]
  from facts have d: "distinct (map fst m)" by blast
  from facts have keys: "fst ` set m = key_of ` set rows" by simp
  from d kv have "map_of m k = Some ls" by simp
  then have "locations_at m k = ls" by (simp add: locations_at_def)
  moreover from facts
  have "locations_at m k = locations_at [] k @ map location_of (filter (\<lambda>p. key_of p = k) rows)"
    by blast
  ultimately show ls: "ls = map location_of (filter (\<lambda>p. key_of p = k) rows)"
    by (simp add: locations_at_def)
  from kv keys show k: "k \<in> key_of ` set rows" by (metis in_keysI)
  then obtain p where "p \<in> set rows" "key_of p = k" by auto
  then have "filter (\<lambda>p. key_of p = k) rows \<noteq> []"
    by (auto simp: filter_empty_conv)
  with ls show "ls \<noteq> []" by simp
qed

lemma poiBreakdown_entry:
  assumes run: "categoryMap_forEach [] rows = Inr m"
    and a: "a \<in> set (poiBreakdown_of m n)"
  shows "category a \<in> key_of ` set rows"
    and "locations a = map location_of (filter (\<lambda>p. key_of p = category a) rows)"
    and "count a = length (filter (\<lambda>p. key_of p = category a) rows)"
    and "percent a = percent_of (count a) n"
    and "0 < count a"
proof -
  from a obtain k ls where kv: "(k, ls) \<in> set m"
    and a_eq: "a = \<lparr>category = k, count = length ls, percent = percent_of (length ls) n,
                     locations = ls\<rparr>"
    by (auto simp: set_poiBreakdown_of)
  note e = categoryMap_entry [OF run kv]
  from e(2) a_eq show "category a \<in> key_of ` set rows" by simp
  from e(1) a_eq show "locations a = map location_of (filter (\<lambda>p. key_of p = category a) rows)"
    by simp
  from e(1) a_eq show "count a = length (filter (\<lambda>p. key_of p = category a) rows)"
    by simp
  from a_eq show "percent a = percent_of (count a) n" by simp
  from e(3) a_eq show "0 < count a" by simp
qed

lemma poiBreakdown_has_key:
  assumes run: "categoryMap_forEach [] rows = Inr m" and p: "p \<in> set rows"
  shows "\<exists>a \<in> set (poiBreakdown_of m n). category a = key_of p"
proof -
  from categoryMap_forEach_Inr [OF run, simplified]
  have "fst ` set m = key_of ` set rows" by simp
  with p have "key_of p \<in> fst ` set m" by blast
  then obtain ls where "(key_of p, ls) \<in> set m" by auto
  then have "\<lparr>category = key_of p, count = length ls, percent = percent_of (length ls) n,
               locations = ls\<rparr> \<in> set (poiBreakdown_of m n)"
    by (force simp: set_poiBreakdown_of)
  then show ?thesis by force
qed

lemma poiBreakdown_sum:
  assumes run: "categoryMap_forEach [] rows = Inr m"
  shows "sum_list (map count (poiBreakdown_of m n)) = length rows"
  using categoryMap_forEach_Inr [OF run] by (simp add: sum_count_poiBreakdown_of)

lemma poiBreakdown_distinct:
  assumes run: "categoryMap_forEach [] rows = Inr m"
  shows "distinct (map category (poiBreakdown_of m n))"
  using categoryMap_forEach_Inr [OF run] by (simp add: distinct_category_poiBreakdown_of)

lemma categoryMap_empty:
  "categoryMap_forEach [] [] = Inr m \<Longrightarrow> m = []"
  by simp

lemma percent_of_defined: "0 < n \<Longrightarrow> percent_of c n \<noteq> None"
  by (simp add: percent_of_def js_div_def)

lemma supportiveTotal_supportiveBusinesses:
  "supportiveTotal_of (supportiveBusinesses_of pb)
     = sum_list (map count (filter (\<lambda>i. category i \<in> set SUPPORTIVE_CATEGORIES) pb))"
  by (simp add: supportiveTotal_of_def supportiveBusinesses_of_def foldl_add_sum_list comp_def)


lemma member_le_sum_list_nat:
  "x \<in> set xs \<Longrightarrow> f x \<le> sum_list (map f xs)" for f :: "'a \<Rightarrow> nat"
  by (induction xs) auto

lemma supportive_percent_defined:
  assumes pos: "list_all (\<lambda>a. 0 < count a) pb"
  shows "list_all (\<lambda>b. sb_percent b \<noteq> None) (supportiveBusinesses_of pb)"
proof -
  let ?S = "filter (\<lambda>i. category i \<in> set SUPPORTIVE_CATEGORIES) pb"
  have "percent_of (count item) (foldl (\<lambda>sum i. sum + count i) 0 ?S) \<noteq> None"
    if "item \<in> set ?S" for item
  proof -
    from that pos have "0 < count item" by (auto simp: list_all_iff)
    moreover from that have "count item \<le> sum_list (map count ?S)"
      by (rule member_le_sum_list_nat)
    ultimately show ?thesis by (simp add: foldl_add_sum_list percent_of_defined)
  qed
  then show ?thesis
    by (auto simp: supportiveBusinesses_of_def list_all_iff Let_def)
qed

subsection \<open>Arithmetic of the scores\<close>

lemma toFixed_nonneg: "0 \<le> x \<Longrightarrow> 0 \<le> toFixed x d"
proof -
  assume x: "0 \<le> x"
  then have "0 \<le> x * 10 ^ d + 1 / 2" by simp
  then have "0 \<le> \<lfloor>x * 10 ^ d + 1 / 2\<rfloor>" by simp
  then have "0 \<le> (of_int \<lfloor>x * 10 ^ d + 1 / 2\<rfloor> :: rat) / 10 ^ d" by simp
  then have "0 \<le> binary64 (of_int \<lfloor>x * 10 ^ d + 1 / 2\<rfloor> / 10 ^ d)"
    by (rule binary64_nonneg)
  with x show ?thesis by (simp add: toFixed_def)
qed

lemma toFixed_tenths:
  assumes "0 \<le> n"
  shows "toFixed (of_int n / 10) 1 = binary64 (of_int n / 10)"
proof -
  have "\<lfloor>(of_int n :: rat) + 1 / 2\<rfloor> = n" by linarith
  with assms show ?thesis by (simp add: toFixed_def)
qed

lemma toFixed_0 [simp]: "toFixed 0 d = 0"
proof -
  have "\<lfloor>(1 :: rat) / 2\<rfloor> = 0" by (simp add: floor_eq_iff)
  then show ?thesis by (simp add: toFixed_def)
qed

lemma Math_round_range:
  assumes "of_int a \<le> x" and "x \<le> of_int b"
  shows "a \<le> Math_round x" and "Math_round x \<le> b"
proof -
  show "a \<le> Math_round x" unfolding Math_round_def using assms(1) by linarith
  show "Math_round x \<le> b" unfolding Math_round_def using assms(2) by linarith
qed

lemma poiScore_of_range: "0 \<le> poiScore_of n" "poiScore_of n \<le> 30"
  by (simp_all add: poiScore_of_def f_nonneg)

lemma amenity_component_nonneg: "0 \<le> max 0 (fsub a b)"
  by simp

lemma amenityScore_of_range: "0 \<le> amenityScore_of p h r" "amenityScore_of p h r \<le> 25"
  by (simp_all add: amenityScore_of_def Let_def f_nonneg split: option.splits)

lemma to_number_Finite: "to_number x = Finite y \<Longrightarrow> y = binary64 x"
  by (simp add: to_number_def split: if_splits)

lemma ftlPercentage_of_cases:
  "ftlPercentage_of rows = Infinity
   \<or> (\<exists>p. ftlPercentage_of rows = Whole p \<and> (p = 0 \<or> 9 \<le> p))"
proof -
  have "9 \<le> Math_round x" if "9 < x" for x
    using that unfolding Math_round_def by linarith
  then show ?thesis
    by (auto simp: ftlPercentage_of_def split: list.splits option.splits js_number.splits)
qed

lemma ftlScore_of_Whole_range:
  assumes "0 \<le> p"
  shows "0 \<le> ftlScore_of (Whole p)" and "ftlScore_of (Whole p) \<le> 20"
proof -
  show "0 \<le> ftlScore_of (Whole p)" by (simp add: ftlScore_of_def)
  have "0 \<le> fdiv (of_int p) 5" using assms by (simp add: f_nonneg)
  then have "20 - fdiv (of_int p) 5 \<le> of_int 20" by simp
  then have "binary64 (20 - fdiv (of_int p) 5) \<le> binary64 (of_int 20)"
    by (rule binary64_mono)
  then have "fsub 20 (fdiv (of_int p) 5) \<le> 20" by (simp add: fsub_def)
  then show "ftlScore_of (Whole p) \<le> 20" by (simp add: ftlScore_of_def)
qed

lemma ftlScore_of_range:
  "0 \<le> ftlScore_of (ftlPercentage_of rows)" "ftlScore_of (ftlPercentage_of rows) \<le> 20"
proof -
  from ftlPercentage_of_cases [of rows]
  consider "ftlPercentage_of rows = Infinity"
    | p where "ftlPercentage_of rows = Whole p" "0 \<le> p"
    by auto
  then have "0 \<le> ftlScore_of (ftlPercentage_of rows) \<and> ftlScore_of (ftlPercentage_of rows) \<le> 20"
  proof cases
    case 1
    then show ?thesis by (simp add: ftlScore_of_def)
  next
    case 2
    with ftlScore_of_Whole_range [OF 2(2)] show ?thesis by simp
  qed
  then show "0 \<le> ftlScore_of (ftlPercentage_of rows)" "ftlScore_of (ftlPercentage_of rows) \<le> 20"
    by simp_all
qed

lemma businessScore_of_range: "0 \<le> businessScore_of sbs" "businessScore_of sbs \<le> 15"
  by (simp_all add: businessScore_of_def f_nonneg)

lemma accessibilityScore_of_range:
  "0 \<le> accessibilityScore_of m" "accessibilityScore_of m \<le> 10"
  by (simp_all add: accessibilityScore_of_def Let_def f_nonneg)

lemma score_sum_range:
  assumes "0 \<le> p" "p \<le> 30" "0 \<le> a" "a \<le> 25" "0 \<le> f" "f \<le> 20" "0 \<le> b" "b \<le> 15"
    "0 \<le> c" "c \<le> 10"
  shows "of_int 0 \<le> fadd (fadd (fadd (fadd p a) f) b) c"
    and "fadd (fadd (fadd (fadd p a) f) b) c \<le> of_int 100"
proof -
  show "of_int 0 \<le> fadd (fadd (fadd (fadd p a) f) b) c"
    using assms by (simp add: f_nonneg)
  have "fadd p a \<le> of_int (30 + 25)"
    using assms by (intro fadd_le) simp_all
  then have "fadd (fadd p a) f \<le> of_int (30 + 25 + 20)"
    using assms by (intro fadd_le) simp_all
  then have "fadd (fadd (fadd p a) f) b \<le> of_int (30 + 25 + 20 + 15)"
    using assms by (intro fadd_le) simp_all
  then have "fadd (fadd (fadd (fadd p a) f) b) c \<le> of_int (30 + 25 + 20 + 15 + 10)"
    using assms by (intro fadd_le) simp_all
  then show "fadd (fadd (fadd (fadd p a) f) b) c \<le> of_int 100" by simp
qed


lemma fadd_component [simp]:
  "fadd 0 (max 0 (fsub a b)) = max 0 (fsub a b)"
  "fadd (max 0 (fsub a b)) 0 = max 0 (fsub a b)"
  "fadd (fadd x y) 0 = fadd x y"
  "fadd 0 (fadd x y) = fadd x y"
  by (simp_all add: fadd_def fsub_def max_def)

lemma amenityScore_of_spec:
  "amenityScore_of p h r = spec_amenity_score (km p) (km h) (km r)"
  by (cases p; cases h; cases r)
     (simp_all add: amenityScore_of_def spec_amenity_score_def spec_component_def km_def Let_def)








lemma max_0_values: "max 0 (8 :: rat) = 8" "max 0 (7 :: rat) = 7" "max 0 (9 / 2 :: rat) = 9 / 2"
  by simp_all

lemma amenity_components:
  "fsub 10 2 = 8" "fsub 10 3 = 7" "fsub 5 (1 / 2) = 9 / 2"
  "fadd 8 7 = 15" "fadd 15 (9 / 2) = 39 / 2" "fadd 0 7 = 7" "fadd 7 (9 / 2) = 23 / 2"
  using binary64_half_integer [of 9] binary64_half_integer [of 39] binary64_half_integer [of 23]
  by (simp_all add: fsub_def fadd_def)





subsection \<open>Fields of the assembled result\<close>

lemma assemble_fields:
  "total_pois (assemble e v s survey g uf poiRows cm pol hos road ftlRows tanksRows)
     = length poiRows"
  "poi_breakdown (assemble e v s survey g uf poiRows cm pol hos road ftlRows tanksRows)
     = poiBreakdown_of cm (length poiRows)"
  "supportive_businesses (assemble e v s survey g uf poiRows cm pol hos road ftlRows tanksRows)
     = supportiveBusinesses_of (poiBreakdown_of cm (length poiRows))"
  "ftl_zone_percentage (assemble e v s survey g uf poiRows cm pol hos road ftlRows tanksRows)
     = ftlPercentage_of ftlRows"
  "used_fallback (assemble e v s survey g uf poiRows cm pol hos road ftlRows tanksRows) = uf"
  "isochrone_geometry
     (map_data (assemble e v s survey g uf poiRows cm pol hos road ftlRows tanksRows)) = g"
  "nearest_police
     (map_data (assemble e v s survey g uf poiRows cm pol hos road ftlRows tanksRows)) = pol"
  "nearest_hospital
     (map_data (assemble e v s survey g uf poiRows cm pol hos road ftlRows tanksRows)) = hos"
  "nearest_road
     (map_data (assemble e v s survey g uf poiRows cm pol hos road ftlRows tanksRows)) = road"
  "distance_to_police (assemble e v s survey g uf poiRows cm pol hos road ftlRows tanksRows)
     = distance_km pol"
  "distance_to_hospital (assemble e v s survey g uf poiRows cm pol hos road ftlRows tanksRows)
     = distance_km hos"
  "distance_to_main_road (assemble e v s survey g uf poiRows cm pol hos road ftlRows tanksRows)
     = distance_km road"
  by (simp_all add: assemble_def Let_def)

lemma assemble_scores:
  "development_score (assemble e v s survey g uf poiRows cm pol hos road ftlRows tanksRows)
     = Math_round
         (fadd (fadd (fadd (fadd (poiScore_of (length poiRows)) (amenityScore_of pol hos road))
                        (ftlScore_of (ftlPercentage_of ftlRows)))
                  (businessScore_of
                     (supportiveBusinesses_of (poiBreakdown_of cm (length poiRows)))))
            (accessibilityScore_of cm))"
  "score_breakdown (assemble e v s survey g uf poiRows cm pol hos road ftlRows tanksRows)
     = \<lparr>poi_score = min 30 (toFixed (poiScore_of (length poiRows)) 1),
        amenity_score = min 25 (toFixed (amenityScore_of pol hos road) 1),
        ftl_score = min 20 (toFixed (ftlScore_of (ftlPercentage_of ftlRows)) 1),
        business_score = min 15 (toFixed (businessScore_of
          (supportiveBusinesses_of (poiBreakdown_of cm (length poiRows)))) 1),
        accessibility_score = min 10 (toFixed (accessibilityScore_of cm) 1)\<rparr>"
  by (simp_all add: assemble_def Let_def)


subsection \<open>The concrete parcel, stage by stage\<close>

lemma scenario_getNearestFeature:
  "fst (getNearestFeature scenario_env v s ''ts_policestations'') =
     Inr (Some \<lparr>distance_m = 2000, nf_lat = 18, nf_lon = 79\<rparr>)"
  "fst (getNearestFeature scenario_env v s ''ts_hospitals'') =
     Inr (Some \<lparr>distance_m = 3000, nf_lat = 18, nf_lon = 79\<rparr>)"
  "fst (getNearestFeature scenario_env v s ''ts_main_roads'') =
     Inr (Some \<lparr>distance_m = 500, nf_lat = 18, nf_lon = 79\<rparr>)"
  by (simp_all add: getNearestFeature_def validTables_def scenario_env_def scenario_facilities_def
        nearest_query_def io_bind_Inr)

lemma scenario_resolve:
  "fst (resolve_isochrone scenario_env v s x y token) = Inr (walk_polygon, False)"
  by (simp add: resolve_isochrone_def io_bind_Inr scenario_env_def isochrone_of_response_def
        walk_polygon_def)

lemma scenario_categoryMap: "\<exists>cm. categoryMap_forEach [] scenario_pois = Inr cm"
  by (subst categoryMap_forEach_succeeds_iff)
     (simp_all add: scenario_pois_def key_of_def property_key_def Object_prototype_properties_def
        list_all_iff set_replicate_conv_if)

lemma scenario_Success:
  assumes cm: "categoryMap_forEach [] scenario_pois = Inr cm"
  shows "fst (analyzeLocation scenario_env v s) =
     Success (assemble scenario_env v s \<lparr>s_longitude = 79, s_latitude = 18\<rparr> walk_polygon False
       scenario_pois cm
       (Some \<lparr>distance_m = 2000, nf_lat = 18, nf_lon = 79\<rparr>)
       (Some \<lparr>distance_m = 3000, nf_lat = 18, nf_lon = 79\<rparr>)
       (Some \<lparr>distance_m = 500, nf_lat = 18, nf_lon = 79\<rparr>)
       [\<lparr>total_intersection = 0, isochrone_area = None\<rparr>]
       [\<lparr>geojson = Some (FeatureCollection None)\<rparr>])"
  apply (subst analyzeLocation_Success_iff)
  apply (rule exI [of _ "\<lparr>s_longitude = 79, s_latitude = 18\<rparr>"])
  apply (rule exI [of _ "[]"])
  apply (rule exI [of _ "''pk.test''"])
  apply (rule exI [of _ walk_polygon])
  apply (rule exI [of _ False])
  apply (rule exI [of _ scenario_pois])
  apply (rule exI [of _ cm])
  apply (simp add: scenario_getNearestFeature scenario_resolve cm)
  apply (simp add: scenario_env_def truthy_def)
  done

subsection \<open>Stages of a run\<close>

lemma analyzeLocation_SuccessI:
  assumes "survey_centroids e v s = Inr (survey # rest)"
    and "truthy (MAPBOX_TOKEN e) = Some token"
    and "fst (resolve_isochrone e v s (s_longitude survey) (s_latitude survey) token) = Inr (g, uf)"
    and "pois_in e g = Inr poiRows"
    and "categoryMap_forEach [] poiRows = Inr cm"
    and "fst (getNearestFeature e v s ''ts_policestations'') = Inr pol"
    and "fst (getNearestFeature e v s ''ts_hospitals'') = Inr hos"
    and "fst (getNearestFeature e v s ''ts_main_roads'') = Inr road"
    and "ftl_overlap e g = Inr ftlRows"
    and "tanks_in e g = Inr tanksRows"
  shows "fst (analyzeLocation e v s)
           = Success (assemble e v s survey g uf poiRows cm pol hos road ftlRows tanksRows)"
  unfolding analyzeLocation_Success_iff using assms by blast

lemma getNearestFeature_Scan:
  assumes "t \<in> set validTables" and "facility_table e t v s = Scan rows"
  shows "getNearestFeature e v s t = (Inr (feature_of rows), [NearestQuery t v s])"
  using assms
  by (cases rows)
     (simp_all add: getNearestFeature_def nearest_query_def io_bind_Inr feature_of_def)

lemma getNearestFeature_NoSuchTable:
  assumes "t \<in> set validTables" and "facility_table e t v s = NoSuchTable"
  shows "getNearestFeature e v s t =
           (Inl (DatabaseError (relation_missing t)), [NearestQuery t v s])"
  using assms
  by (simp add: getNearestFeature_def nearest_query_def io_bind_Inl)

lemma getNearestFeature_Inr_iff:
  assumes "t \<in> set validTables"
  shows "fst (getNearestFeature e v s t) = Inr d
           \<longleftrightarrow> (\<exists>rows. facility_table e t v s = Scan rows \<and> d = feature_of rows)"
proof (cases "facility_table e t v s")
  case NoSuchTable
  with assms show ?thesis by (simp add: getNearestFeature_NoSuchTable)
next
  case (Scan rows)
  with assms show ?thesis by (auto simp: getNearestFeature_Scan)
qed

lemma validTables_simps [simp]:
  "''ts_policestations'' \<in> set validTables"
  "''ts_hospitals'' \<in> set validTables"
  "''ts_main_roads'' \<in> set validTables"
  by (simp_all add: validTables_def)

lemma resolve_isochrone_primary:
  assumes "isochrone_of_response (mapbox_isochrone e x y ISO_MINUTES DENOISE token) = Inr g"
  shows "resolve_isochrone e v s x y token
           = (Inr (g, False), [IsochroneFetch x y ISO_MINUTES DENOISE token])"
  using assms by (simp add: resolve_isochrone_def io_bind_Inr)

lemma fallback_buffer_Inr:
  assumes "survey_buffer e FALLBACK_WALK_BUFFER_M v s = Inr (row # rest)"
    and "buffer_geom row = Some g"
  shows "fallback_buffer e v s = (Inr g, [BufferQuery FALLBACK_WALK_BUFFER_M v s])"
  using assms by (simp add: fallback_buffer_def io_bind_Inr)


lemma filter_distinct_key:
  "distinct (map f xs) \<Longrightarrow> k \<in> f ` set xs \<Longrightarrow> length (filter (\<lambda>a. f a = k) xs) = 1"
proof (induction xs)
  case Nil
  then show ?case by simp
next
  case (Cons x xs)
  show ?case
  proof (cases "f x = k")
    case True
    with Cons.prems(1) have "k \<notin> f ` set xs" by simp
    then have "\<forall>a \<in> set xs. f a \<noteq> k" by blast
    then have "filter (\<lambda>a. f a = k) xs = []"
      by (simp add: filter_empty_conv)
    with True show ?thesis by simp
  next
    case False
    with Cons show ?thesis by auto
  qed
qed

lemma poiBreakdown_of_Nil [simp]: "poiBreakdown_of [] n = []"
  by (simp add: poiBreakdown_of_def Object_entries_def)

lemma supportiveBusinesses_of_Nil [simp]: "supportiveBusinesses_of [] = []"
  by (simp add: supportiveBusinesses_of_def)

lemma businessScore_of_Nil [simp]: "businessScore_of [] = 0"
  by (simp add: businessScore_of_def supportiveTotal_of_def fdiv_def fmul_def)

lemma no_poi_env_Success:
  "fst (analyzeLocation no_poi_env v s) =
     Success (assemble no_poi_env v s \<lparr>s_longitude = 79, s_latitude = 18\<rparr> walk_polygon False
       [] []
       (feature_of [\<lparr>dist_m = 2000, n_lat = 18, n_lon = 79\<rparr>])
       (feature_of [\<lparr>dist_m = 3000, n_lat = 18, n_lon = 79\<rparr>])
       (feature_of [\<lparr>dist_m = 500, n_lat = 18, n_lon = 79\<rparr>])
       [\<lparr>total_intersection = 0, isochrone_area = None\<rparr>]
       [\<lparr>geojson = Some (FeatureCollection None)\<rparr>])"
  by (rule analyzeLocation_SuccessI [where rest = "[]" and token = "''pk.test''"])
     (simp_all add: no_poi_env_def scenario_env_def truthy_def resolve_isochrone_primary
        isochrone_of_response_def walk_polygon_def getNearestFeature_Scan
        scenario_facilities_def)

lemma key_of_simps:
  "p_category p = None \<Longrightarrow> key_of p = ''null''"
  "key_of p = ''Other'' \<longleftrightarrow> p_category p = Some ''Other''"
  by (auto simp: key_of_def property_key_def split: option.splits)

lemma analyzeLocation_no_rows:
  assumes "survey_centroids e v s = Inr []"
  shows "analyzeLocation e v s =
     (Failure ''No matching survey centroid found. Check village and survey number.'',
      [SurveyQuery v s])"
  using assms
  by (simp add: analyzeLocation_def analyzeLocation_try_def Let_def io_bind_Inr)

lemma truthy_None_iff: "truthy t = None \<longleftrightarrow> t = None \<or> t = Some []"
  by (auto simp: truthy_def split: option.splits)

lemma routing_unusable_fails:
  assumes "routing_unusable res"
  shows "\<exists>failure. isochrone_of_response res = Inl failure"
  using assms
  by (auto simp: routing_unusable_def isochrone_of_response_def
        split: fetch_result.splits iso_body.splits option.splits list.splits)

lemma resolve_isochrone_buffer:
  assumes "routing_unusable (mapbox_isochrone e x y ISO_MINUTES DENOISE token)"
    and "survey_buffer e FALLBACK_WALK_BUFFER_M v s = Inr (row # rest)"
    and "buffer_geom row = Some buffer"
  shows "resolve_isochrone e v s x y token =
     (Inr (buffer, True),
      [IsochroneFetch x y ISO_MINUTES DENOISE token, BufferQuery FALLBACK_WALK_BUFFER_M v s])"
proof -
  from routing_unusable_fails [OF assms(1)] obtain failure
    where "isochrone_of_response (mapbox_isochrone e x y ISO_MINUTES DENOISE token) = Inl failure" ..
  then show ?thesis
    by (simp add: resolve_isochrone_def io_bind_Inr fallback_buffer_Inr [OF assms(2,3)])
qed

lemma table_scan_cases:
  assumes "t \<noteq> NoSuchTable"
  obtains rows where "t = Scan rows"
  using assms by (cases t) auto

lemma point_env_Success:
  assumes cm: "categoryMap_forEach [] scenario_pois = Inr cm"
  shows "\<exists>r. fst (analyzeLocation point_env v s) = Success r"
proof -
  have "fst (resolve_isochrone point_env v s 79 18 ''pk.test'') = Inr (buffer_polygon, True)"
    by (subst resolve_isochrone_buffer [where row = "\<lparr>buffer_geom = Some buffer_polygon\<rparr>"
          and rest = "[]" and buffer = buffer_polygon])
       (simp_all add: point_env_def scenario_env_def routing_unusable_def)
  then have "fst (analyzeLocation point_env v s) =
     Success (assemble point_env v s \<lparr>s_longitude = 79, s_latitude = 18\<rparr> buffer_polygon True
       scenario_pois cm
       (feature_of [\<lparr>dist_m = 2000, n_lat = 18, n_lon = 79\<rparr>])
       (feature_of [\<lparr>dist_m = 3000, n_lat = 18, n_lon = 79\<rparr>])
       (feature_of [\<lparr>dist_m = 500, n_lat = 18, n_lon = 79\<rparr>])
       [\<lparr>total_intersection = 0, isochrone_area = None\<rparr>]
       [\<lparr>geojson = Some (FeatureCollection None)\<rparr>])"
    by (intro analyzeLocation_SuccessI [where rest = "[]" and token = "''pk.test''"])
       (simp_all add: point_env_def scenario_env_def truthy_def cm getNearestFeature_Scan
          scenario_facilities_def)
  then show ?thesis by blast
qed

lemma io_bind_pair [simp]:
  "io_bind (Inr x, tr) f = (fst (f x), tr @ snd (f x))"
  "io_bind (Inl err, tr) f = (Inl err, tr)"
  by (simp_all add: io_bind_def)

lemma analyzeLocation_missing_table:
  assumes "t \<in> set validTables" and "facility_table e t v s = NoSuchTable"
  shows "\<exists>msg. fst (analyzeLocation e v s) = Failure msg"
proof (cases "fst (analyzeLocation e v s)")
  case (Failure msg)
  then show ?thesis by blast
next
  case (Success r)
  then obtain pol hos road
    where "fst (getNearestFeature e v s ''ts_policestations'') = Inr pol"
      and "fst (getNearestFeature e v s ''ts_hospitals'') = Inr hos"
      and "fst (getNearestFeature e v s ''ts_main_roads'') = Inr road"
    unfolding analyzeLocation_Success_iff by blast
  with assms show ?thesis
    by (auto simp: validTables_def getNearestFeature_NoSuchTable)
qed

lemma feature_of_Nil [simp]: "feature_of [] = None"
  by (simp add: feature_of_def)

lemma analyzeLocation_nearest:
  assumes "fst (analyzeLocation e v s) = Success r"
  shows "\<exists>prow hrow rrow.
           facility_table e ''ts_policestations'' v s = Scan prow
         \<and> facility_table e ''ts_hospitals'' v s = Scan hrow
         \<and> facility_table e ''ts_main_roads'' v s = Scan rrow
         \<and> nearest_police (map_data r) = feature_of prow
         \<and> nearest_hospital (map_data r) = feature_of hrow
         \<and> nearest_road (map_data r) = feature_of rrow
         \<and> distance_to_police r = distance_km (feature_of prow)
         \<and> distance_to_hospital r = distance_km (feature_of hrow)
         \<and> distance_to_main_road r = distance_km (feature_of rrow)
         \<and> amenity_score (score_breakdown r)
             = min 25 (toFixed (spec_amenity_score (km (feature_of prow)) (km (feature_of hrow))
                          (km (feature_of rrow))) 1)"
proof -
  from assms(1) obtain survey g uf poiRows cm pol hos road ftlRows tanksRows
    where p: "fst (getNearestFeature e v s ''ts_policestations'') = Inr pol"
      and h: "fst (getNearestFeature e v s ''ts_hospitals'') = Inr hos"
      and rd: "fst (getNearestFeature e v s ''ts_main_roads'') = Inr road"
      and r: "r = assemble e v s survey g uf poiRows cm pol hos road ftlRows tanksRows"
    unfolding analyzeLocation_Success_iff by blast
  from p obtain prow where 1: "facility_table e ''ts_policestations'' v s = Scan prow"
    "pol = feature_of prow"
    by (auto simp: getNearestFeature_Inr_iff)
  from h obtain hrow where 2: "facility_table e ''ts_hospitals'' v s = Scan hrow"
    "hos = feature_of hrow"
    by (auto simp: getNearestFeature_Inr_iff)
  from rd obtain rrow where 3: "facility_table e ''ts_main_roads'' v s = Scan rrow"
    "road = feature_of rrow"
    by (auto simp: getNearestFeature_Inr_iff)
  have "amenity_score (score_breakdown r) = min 25 (toFixed (amenityScore_of pol hos road) 1)"
    by (simp only: r assemble_scores scoreBreakdown.simps)
  with 1 2 3 show ?thesis
    by (simp add: r assemble_fields amenityScore_of_spec)
qed

lemma relation_missing_message [simp]:
  "message (DatabaseError (relation_missing t)) = relation_missing t"
  "relation_missing t \<noteq> []"
  by (simp_all add: relation_missing_def)

lemma first_missing_cases:
  assumes "first_missing e v s = Some t"
  obtains (police) "t = ''ts_policestations''"
      and "facility_table e ''ts_policestations'' v s = NoSuchTable"
    | (hospital) prow where "t = ''ts_hospitals''"
      and "facility_table e ''ts_policestations'' v s = Scan prow"
      and "facility_table e ''ts_hospitals'' v s = NoSuchTable"
    | (road) prow hrow where "t = ''ts_main_roads''"
      and "facility_table e ''ts_policestations'' v s = Scan prow"
      and "facility_table e ''ts_hospitals'' v s = Scan hrow"
      and "facility_table e ''ts_main_roads'' v s = NoSuchTable"
  using assms
  by (auto simp: first_missing_def validTables_def split: if_splits elim!: table_scan_cases)

lemma analyzeLocation_first_missing:
  assumes sv: "survey_centroids e v s = Inr (survey # rest)"
    and tk: "truthy (MAPBOX_TOKEN e) = Some token"
    and rs: "fst (resolve_isochrone e v s (s_longitude survey) (s_latitude survey) token)
               = Inr (g, uf)"
    and pq: "pois_in e g = Inr rows"
    and keys: "list_all (\<lambda>p. key_of p \<notin> set Object_prototype_properties) rows"
    and miss: "first_missing e v s = Some t"
  shows "fst (analyzeLocation e v s) = Failure (relation_missing t)"
proof -
  from keys obtain cm where cm: "categoryMap_forEach [] rows = Inr cm"
    using categoryMap_forEach_succeeds_iff [of "[]" rows] by auto
  have "fst (analyzeLocation_try e v s) = Inl (DatabaseError (relation_missing t))"
    using miss
  proof (cases rule: first_missing_cases)
    case police
    then show ?thesis
      unfolding analyzeLocation_try_def
      by (simp add: io_call_def sv tk pq cm io_bind_Inr [OF rs] getNearestFeature_NoSuchTable)
  next
    case (hospital prow)
    then show ?thesis
      unfolding analyzeLocation_try_def
      by (simp add: io_call_def sv tk pq cm io_bind_Inr [OF rs] getNearestFeature_NoSuchTable
            getNearestFeature_Scan)
  next
    case (road prow hrow)
    then show ?thesis
      unfolding analyzeLocation_try_def
      by (simp add: io_call_def sv tk pq cm io_bind_Inr [OF rs] getNearestFeature_NoSuchTable
            getNearestFeature_Scan)
  qed
  then show ?thesis by (simp add: analyzeLocation_def)
qed

lemma empty_police_env_Success:
  assumes cm: "categoryMap_forEach [] scenario_pois = Inr cm"
  shows "fst (analyzeLocation empty_police_env v s) =
     Success (assemble empty_police_env v s \<lparr>s_longitude = 79, s_latitude = 18\<rparr> walk_polygon
       False scenario_pois cm
       (feature_of [])
       (feature_of [\<lparr>dist_m = 3000, n_lat = 18, n_lon = 79\<rparr>])
       (feature_of [\<lparr>dist_m = 500, n_lat = 18, n_lon = 79\<rparr>])
       [\<lparr>total_intersection = 0, isochrone_area = None\<rparr>]
       [\<lparr>geojson = Some (FeatureCollection None)\<rparr>])"
  by (rule analyzeLocation_SuccessI [where rest = "[]" and token = "''pk.test''"])
     (simp_all add: empty_police_env_def scenario_env_def truthy_def cm resolve_isochrone_primary
        isochrone_of_response_def walk_polygon_def getNearestFeature_Scan
        scenario_facilities_def)

subsection \<open>Sample computations\<close>

text \<open>
  Inputs at which the rounding to binary64 decides the outcome, so that the number the code
  computes is not the one exact arithmetic gives. 23 of 160 points is 14.375 percent and
  is reported as 14.37. A facility at 4.5 m is reported at 0.004 km. An overlap of 29/200
  is 14.5 percent and is reported as 14. A hospital at 1050 m alone gives the amenity
  score 8.9. With no point of interest, a police station at 7700 m and an overlap of 74
  percent the sum of the sub-scores is 7.499999999999999 and the development score is 7.
  The quotient 9/100 times 100 is exactly 9, and so is the one of an overlap just above 9
  percent; the quotient 901/10000 times 100 is the number 9.01.
\<close>

lemma b64_23_160: "binary64 (23 / 160) = 2589569785738035 / 18014398509481984"
  using binary64_evalI [of "- 3" "23 / 160" 5179139571476070]
  by (simp add: power_int_minus_divide)

lemma b64_23_160_100:
  "binary64 (64739244643450875 / 4503599627370496) = 8092405580431359 / 562949953421312"
  using binary64_evalI [of "3" "64739244643450875 / 4503599627370496" 8092405580431359]
  by (simp add: power_int_minus_divide)

lemma percent_of_23_160: "percent_of 23 160 = Some (binary64 (1437 / 100))"
proof -
  have q: "fdiv 23 160 = 2589569785738035 / 18014398509481984"
    using b64_23_160 by (simp add: fdiv_def)
  have p: "fmul (2589569785738035 / 18014398509481984) 100
      = 8092405580431359 / 562949953421312"
    using b64_23_160_100 by (simp add: fmul_def)
  have "\<lfloor>(8092405580431359 / 562949953421312 :: rat) * 10 ^ 2 + 1 / 2\<rfloor> = 1437"
    by (simp add: floor_eq_iff)
  then have t: "toFixed (8092405580431359 / 562949953421312) 2 = binary64 (1437 / 100)"
    by (simp add: toFixed_def)
  show ?thesis by (simp add: percent_of_def js_div_def q p t)
qed

lemma b64_9_2000: "binary64 (9 / 2000) = 5188146770730811 / 1152921504606846976"
  using binary64_evalI [of "- 8" "9 / 2000" 5188146770730811]
  by (simp add: power_int_minus_divide)

lemma distance_km_4_5_m:
  "distance_km (Some \<lparr>distance_m = 9 / 2, nf_lat = 18, nf_lon = 79\<rparr>) = Some (binary64 (4 / 1000))"
proof -
  have q: "fdiv (9 / 2) 1000 = 5188146770730811 / 1152921504606846976"
    using b64_9_2000 by (simp add: fdiv_def)
  have "\<lfloor>(5188146770730811 / 1152921504606846976 :: rat) * 10 ^ 3 + 1 / 2\<rfloor> = 4"
    by (simp add: floor_eq_iff)
  then have t: "toFixed (5188146770730811 / 1152921504606846976) 3 = binary64 (4 / 1000)"
    by (simp add: toFixed_def)
  show ?thesis by (simp add: distance_km_def q t)
qed

lemma b64_29_200: "binary64 (29 / 200) = 5224175567749775 / 36028797018963968"
  using binary64_evalI [of "- 3" "29 / 200" 5224175567749775]
  by (simp add: power_int_minus_divide)

lemma b64_29_200_100:
  "binary64 (130604389193744375 / 9007199254740992) = 8162774324609023 / 562949953421312"
  using binary64_evalI [of "3" "130604389193744375 / 9007199254740992" 8162774324609023]
  by (simp add: power_int_minus_divide)

lemma ftlPercentage_of_29_200:
  "ftlPercentage_of [\<lparr>total_intersection = 29, isochrone_area = Some 200\<rparr>] = Whole 14"
proof -
  have r: "rawPercentage_of 29 200 = Finite (8162774324609023 / 562949953421312)"
    by (simp add: rawPercentage_of_def to_number_def overflows_def b64_29_200 b64_29_200_100)
  have m: "Math_round (8162774324609023 / 562949953421312) = 14"
    by (simp add: Math_round_def floor_eq_iff)
  show ?thesis by (simp add: ftlPercentage_of_def r m)
qed

lemma b64_21_20: "binary64 (21 / 20) = 4728779608739021 / 4503599627370496"
  using binary64_evalI [of "0" "21 / 20" 4728779608739021]
  by (simp add: power_int_minus_divide)

lemma b64_10_minus_21_20:
  "binary64 (40307216664965939 / 4503599627370496) = 2519201041560371 / 281474976710656"
  using binary64_evalI [of "3" "40307216664965939 / 4503599627370496" 5038402083120742]
  by (simp add: power_int_minus_divide)

lemma b64_895: "binary64 (2519201041560371 / 281474976710656) = 2519201041560371 / 281474976710656"
  using b64_10_minus_21_20 [symmetric] by (simp only: binary64_idem)

lemma amenity_score_hospital_1050_m:
  "min 25 (toFixed (amenityScore_of None (Some \<lparr>distance_m = 1050, nf_lat = 18, nf_lon = 79\<rparr>)
      None) 1) = binary64 (89 / 10)"
proof -
  have q: "fdiv 1050 1000 = 4728779608739021 / 4503599627370496"
    using b64_21_20 by (simp add: fdiv_def)
  have d: "fsub 10 (4728779608739021 / 4503599627370496) = 2519201041560371 / 281474976710656"
    using b64_10_minus_21_20 by (simp add: fsub_def)
  have a: "fadd 0 (2519201041560371 / 281474976710656) = 2519201041560371 / 281474976710656"
    using b64_895 by (simp add: fadd_def)
  have "\<lfloor>(2519201041560371 / 281474976710656 :: rat) * 10 ^ 1 + 1 / 2\<rfloor> = 89"
    by (simp add: floor_eq_iff)
  then have t: "toFixed (2519201041560371 / 281474976710656) 1 = binary64 (89 / 10)"
    by (simp add: toFixed_def)
  have le: "binary64 (89 / 10) \<le> 25"
    using binary64_mono [of "89 / 10" 25] by simp
  have "amenityScore_of None (Some \<lparr>distance_m = 1050, nf_lat = 18, nf_lon = 79\<rparr>) None
      = 2519201041560371 / 281474976710656"
    by (simp add: amenityScore_of_def q d a)
  then show ?thesis unfolding t using le by (simp only: t min_absorb2)
qed

lemma b64_77_10: "binary64 (77 / 10) = 8669429282688205 / 1125899906842624"
  using binary64_evalI [of "2" "77 / 10" 8669429282688205]
  by (simp add: power_int_minus_divide)

lemma b64_23_10: "binary64 (2589569785738035 / 1125899906842624) = 2589569785738035 / 1125899906842624"
  using binary64_evalI [of "1" "2589569785738035 / 1125899906842624" 5179139571476070]
  by (simp add: power_int_minus_divide)

lemma b64_74_5: "binary64 (74 / 5) = 4165829655317709 / 281474976710656"
  using binary64_evalI [of "3" "74 / 5" 8331659310635418]
  by (simp add: power_int_minus_divide)

lemma b64_52_10: "binary64 (1463669878895411 / 281474976710656) = 1463669878895411 / 281474976710656"
  using binary64_evalI [of "2" "1463669878895411 / 281474976710656" 5854679515581644]
  by (simp add: power_int_minus_divide)

lemma b64_75_10: "binary64 (8444249301319679 / 1125899906842624) = 8444249301319679 / 1125899906842624"
  using binary64_evalI [of "2" "8444249301319679 / 1125899906842624" 8444249301319679]
  by (simp add: power_int_minus_divide)

lemma development_score_7700_m_74_percent:
  "Math_round (fadd (fadd (fadd (fadd (poiScore_of 0)
       (amenityScore_of (Some \<lparr>distance_m = 7700, nf_lat = 18, nf_lon = 79\<rparr>) None None))
       (ftlScore_of (Whole 74))) (businessScore_of [])) (accessibilityScore_of [])) = 7"
proof -
  have q: "fdiv 7700 1000 = 8669429282688205 / 1125899906842624"
    using b64_77_10 by (simp add: fdiv_def)
  have d: "fsub 10 (8669429282688205 / 1125899906842624) = 2589569785738035 / 1125899906842624"
    using b64_23_10 by (simp add: fsub_def)
  have a: "fadd 0 (2589569785738035 / 1125899906842624) = 2589569785738035 / 1125899906842624"
    using b64_23_10 by (simp add: fadd_def)
  have am: "amenityScore_of (Some \<lparr>distance_m = 7700, nf_lat = 18, nf_lon = 79\<rparr>) None None
      = 2589569785738035 / 1125899906842624"
    by (simp add: amenityScore_of_def q d a)
  have f: "fdiv 74 5 = 4165829655317709 / 281474976710656"
    using b64_74_5 by (simp add: fdiv_def)
  have g: "fsub 20 (4165829655317709 / 281474976710656) = 1463669878895411 / 281474976710656"
    using b64_52_10 by (simp add: fsub_def)
  have ft: "ftlScore_of (Whole 74) = 1463669878895411 / 281474976710656"
    by (simp add: ftlScore_of_def f g)
  have s: "fadd (2589569785738035 / 1125899906842624) (1463669878895411 / 281474976710656)
      = 8444249301319679 / 1125899906842624"
    using b64_75_10 by (simp add: fadd_def)
  have z: "fadd (8444249301319679 / 1125899906842624) 0 = 8444249301319679 / 1125899906842624"
    using b64_75_10 by (simp add: fadd_def)
  have p: "poiScore_of 0 = 0" by (simp add: poiScore_of_def fdiv_def fmul_def)
  have b: "businessScore_of [] = 0" by (rule businessScore_of_Nil)
  have c: "accessibilityScore_of [] = 0"
    by (simp add: accessibilityScore_of_def Object_entries_def fdiv_def fmul_def)
  have m: "Math_round (8444249301319679 / 1125899906842624) = 7"
    by (simp add: Math_round_def floor_eq_iff)
  show ?thesis unfolding p b c am ft a s z by (rule m)
qed

lemma b64_9_100: "binary64 (9 / 100) = 3242591731706757 / 36028797018963968"
  using binary64_evalI [of "- 4" "9 / 100" 6485183463413514]
  by (simp add: power_int_minus_divide)

lemma b64_9_100_100: "binary64 (81064793292668925 / 9007199254740992) = 9"
  using binary64_evalI [of "3" "81064793292668925 / 9007199254740992" 5066549580791808]
  by (simp add: power_int_minus_divide)

lemma ftlPercentage_of_9_100:
  "rawPercentage_of 9 100 = Finite 9"
  "ftlPercentage_of [\<lparr>total_intersection = 9, isochrone_area = Some 100\<rparr>] = Whole 0"
proof -
  show r: "rawPercentage_of 9 100 = Finite 9"
    by (simp add: rawPercentage_of_def to_number_def overflows_def b64_9_100 b64_9_100_100)
  show "ftlPercentage_of [\<lparr>total_intersection = 9, isochrone_area = Some 100\<rparr>] = Whole 0"
    by (simp add: ftlPercentage_of_def r)
qed

lemma b64_just_above_9_100:
  "binary64 (810647932926682 / 9007199254740911) = 3242591731706757 / 36028797018963968"
  using binary64_evalI [of "- 4" "810647932926682 / 9007199254740911" 6485183463413514]
  by (simp add: power_int_minus_divide)

lemma ftlPercentage_of_just_above_9:
  "9 < (810647932926682 / 9007199254740911 :: rat) * 100"
  "ftlPercentage_of [\<lparr>total_intersection = 810647932926682,
      isochrone_area = Some 9007199254740911\<rparr>] = Whole 0"
proof -
  show "9 < (810647932926682 / 9007199254740911 :: rat) * 100" by simp
  have r: "rawPercentage_of 810647932926682 9007199254740911 = Finite 9"
    by (simp add: rawPercentage_of_def to_number_def overflows_def b64_just_above_9_100
          b64_9_100_100)
  show "ftlPercentage_of [\<lparr>total_intersection = 810647932926682,
      isochrone_area = Some 9007199254740911\<rparr>] = Whole 0"
    by (simp add: ftlPercentage_of_def r)
qed

lemma b64_901_10000: "binary64 (901 / 10000) = 6492389222817307 / 72057594037927936"
  using binary64_evalI [of "- 4" "901 / 10000" 6492389222817307]
  by (simp add: power_int_minus_divide)

lemma b64_901_10000_100:
  "binary64 (162309730570432675 / 18014398509481984) = 5072179080326021 / 562949953421312"
  using binary64_evalI [of "3" "162309730570432675 / 18014398509481984" 5072179080326021]
  by (simp add: power_int_minus_divide)

lemma b64_901_100: "binary64 (901 / 100) = 5072179080326021 / 562949953421312"
  using binary64_evalI [of "3" "901 / 100" 5072179080326021]
  by (simp add: power_int_minus_divide)

lemma ftlPercentage_of_901_10000:
  "rawPercentage_of 901 10000 = Finite (binary64 (901 / 100))"
  "ftlPercentage_of [\<lparr>total_intersection = 901, isochrone_area = Some 10000\<rparr>] = Whole 9"
proof -
  have r: "rawPercentage_of 901 10000 = Finite (5072179080326021 / 562949953421312)"
    by (simp add: rawPercentage_of_def to_number_def overflows_def b64_901_10000
          b64_901_10000_100)
  then show "rawPercentage_of 901 10000 = Finite (binary64 (901 / 100))"
    by (simp only: b64_901_100)
  have m: "Math_round (5072179080326021 / 562949953421312) = 9"
    by (simp add: Math_round_def floor_eq_iff)
  show "ftlPercentage_of [\<lparr>total_intersection = 901, isochrone_area = Some 10000\<rparr>] = Whole 9"
    by (simp add: ftlPercentage_of_def r m)
qed

section \<open>The claims\<close>





text \<open>
  Claim C3. For a parcel that exists and a configured token, when the routing service
  returns a non-success status, no features, or a geometry that is neither a Polygon nor a
  MultiPolygon, the isochrone stage does not fail: it asks the store for the buffer of
  \<open>FALLBACK_WALK_BUFFER_M = 1000\<close> metres around the parcel's centroid (the query buffers
  the centroid in the projected frame EPSG:32643 and returns it in EPSG:4326) and takes
  the answer as the reachability geometry with \<open>usedFallback\<close> set. Every successful
  analysis then reports \<open>used_fallback\<close> and that geometry, and the analysis does
  succeed whenever the store answers the later queries.
\<close>

theorem C3_fallback_buffer:
  assumes "survey_centroids e v s = Inr (survey # rest)"
    and "truthy (MAPBOX_TOKEN e) = Some token"
    and "routing_unusable
           (mapbox_isochrone e (s_longitude survey) (s_latitude survey) ISO_MINUTES DENOISE token)"
    and "survey_buffer e 1000 v s = Inr (row # others)"
    and "buffer_geom row = Some buffer"
  shows "resolve_isochrone e v s (s_longitude survey) (s_latitude survey) token =
           (Inr (buffer, True),
            [IsochroneFetch (s_longitude survey) (s_latitude survey) 10 1 token,
             BufferQuery 1000 v s])
       \<and> (\<forall>r. fst (analyzeLocation e v s) = Success r \<longrightarrow>
             used_fallback r \<and> isochrone_geometry (map_data r) = buffer)
       \<and> (\<forall>rows ftlRows tanksRows.
             pois_in e buffer = Inr rows
             \<and> list_all (\<lambda>p. key_of p \<notin> set Object_prototype_properties) rows
             \<and> list_all (\<lambda>t. facility_table e t v s \<noteq> NoSuchTable) validTables
             \<and> ftl_overlap e buffer = Inr ftlRows
             \<and> tanks_in e buffer = Inr tanksRows
           \<longrightarrow> (\<exists>r. fst (analyzeLocation e v s) = Success r))"
proof -
  have res: "resolve_isochrone e v s (s_longitude survey) (s_latitude survey) token =
           (Inr (buffer, True),
            [IsochroneFetch (s_longitude survey) (s_latitude survey) 10 1 token,
             BufferQuery 1000 v s])"
    using resolve_isochrone_buffer [of e "s_longitude survey" "s_latitude survey" token v s row others buffer]
      assms(3,4,5)
    by (simp add: FALLBACK_WALK_BUFFER_M_def ISO_MINUTES_def DENOISE_def)
  have used: "used_fallback r \<and> isochrone_geometry (map_data r) = buffer"
    if "fst (analyzeLocation e v s) = Success r" for r
  proof -
    from that obtain survey' rest' token' g uf poiRows cm pol hos road ftlRows tanksRows
      where sv: "survey_centroids e v s = Inr (survey' # rest')"
        and tk: "truthy (MAPBOX_TOKEN e) = Some token'"
        and rs: "fst (resolve_isochrone e v s (s_longitude survey') (s_latitude survey') token')
                   = Inr (g, uf)"
        and r: "r = assemble e v s survey' g uf poiRows cm pol hos road ftlRows tanksRows"
      unfolding analyzeLocation_Success_iff by blast
    from sv assms(1) have "survey' = survey" by simp
    moreover from tk assms(2) have "token' = token" by simp
    ultimately have "g = buffer" "uf" using rs res by simp_all
    with r show ?thesis by (simp add: assemble_fields)
  qed
  have runs: "\<exists>r. fst (analyzeLocation e v s) = Success r"
    if pois: "pois_in e buffer = Inr rows"
      and keys: "list_all (\<lambda>p. key_of p \<notin> set Object_prototype_properties) rows"
      and tables: "list_all (\<lambda>t. facility_table e t v s \<noteq> NoSuchTable) validTables"
      and ftl: "ftl_overlap e buffer = Inr ftlRows"
      and tanks: "tanks_in e buffer = Inr tanksRows"
    for rows ftlRows tanksRows
  proof -
    from keys obtain cm where cm: "categoryMap_forEach [] rows = Inr cm"
      using categoryMap_forEach_succeeds_iff [of "[]" rows] by auto
    from tables obtain prow hrow rrow
      where "facility_table e ''ts_policestations'' v s = Scan prow"
        and "facility_table e ''ts_hospitals'' v s = Scan hrow"
        and "facility_table e ''ts_main_roads'' v s = Scan rrow"
      by (auto simp: validTables_def elim!: table_scan_cases)
    then have near: "fst (getNearestFeature e v s ''ts_policestations'') = Inr (feature_of prow)"
      "fst (getNearestFeature e v s ''ts_hospitals'') = Inr (feature_of hrow)"
      "fst (getNearestFeature e v s ''ts_main_roads'') = Inr (feature_of rrow)"
      by (simp_all add: getNearestFeature_Scan)
    from res have "fst (resolve_isochrone e v s (s_longitude survey) (s_latitude survey) token)
        = Inr (buffer, True)" by simp
    from analyzeLocation_SuccessI [OF assms(1,2) this pois cm near ftl tanks]
    show ?thesis by blast
  qed
  from res used runs show ?thesis by blast
qed

theorem C3_fallback_witness:
  "routing_unusable (mapbox_isochrone point_env 79 18 ISO_MINUTES DENOISE ''pk.test'')
   \<and> (\<exists>r. fst (analyzeLocation point_env ''Hanamkonda'' ''12'') = Success r
         \<and> used_fallback r \<and> isochrone_geometry (map_data r) = buffer_polygon)"
proof -
  from scenario_categoryMap obtain cm where cm: "categoryMap_forEach [] scenario_pois = Inr cm" ..
  from point_env_Success [OF cm] obtain r
    where ok: "fst (analyzeLocation point_env ''Hanamkonda'' ''12'') = Success r" ..
  have bad: "routing_unusable (mapbox_isochrone point_env 79 18 ISO_MINUTES DENOISE ''pk.test'')"
    by (simp add: point_env_def scenario_env_def routing_unusable_def)
  have "used_fallback r \<and> isochrone_geometry (map_data r) = buffer_polygon"
    using C3_fallback_buffer [of point_env "''Hanamkonda''" "''12''"
        "\<lparr>s_longitude = 79, s_latitude = 18\<rparr>" "[]" "''pk.test''"
        "\<lparr>buffer_geom = Some buffer_polygon\<rparr>" "[]" buffer_polygon] bad ok
    by (simp add: point_env_def scenario_env_def truthy_def)
  with ok bad show ?thesis by blast
qed

text \<open>
  Claim C4. When the Mapbox token is unset (or empty), the analysis never succeeds: it
  returns an error, the only external call made is the survey query, so neither the
  routing service nor the fallback buffer is tried, and for a parcel that exists the error
  is the configuration message.
\<close>

theorem C4_missing_credential:
  assumes "MAPBOX_TOKEN e = None \<or> MAPBOX_TOKEN e = Some []"
  shows "(\<exists>msg. fst (analyzeLocation e v s) = Failure msg)
       \<and> snd (analyzeLocation e v s) = [SurveyQuery v s]
       \<and> (\<forall>survey rest. survey_centroids e v s = Inr (survey # rest) \<longrightarrow>
            fst (analyzeLocation e v s) = Failure
              ''Mapbox token not configured. Please set MAPBOX_TOKEN in environment variables.'')"
proof -
  from assms have t: "truthy (MAPBOX_TOKEN e) = None" by (simp add: truthy_None_iff)
  show ?thesis
  proof (cases "survey_centroids e v s")
    case (Inl err)
    then show ?thesis
      by (simp add: analyzeLocation_def analyzeLocation_try_def Let_def io_bind_Inl)
  next
    case (Inr surveyRows)
    with t show ?thesis
      by (cases surveyRows)
         (simp_all add: analyzeLocation_def analyzeLocation_try_def Let_def io_bind_Inr)
  qed
qed

theorem C4_missing_credential_witness:
  "MAPBOX_TOKEN no_token_env = None
   \<and> analyzeLocation no_token_env ''Hanamkonda'' ''12'' =
       (Failure ''Mapbox token not configured. Please set MAPBOX_TOKEN in environment variables.'',
        [SurveyQuery ''Hanamkonda'' ''12''])"
proof -
  have h: "MAPBOX_TOKEN no_token_env = None" by (simp add: no_token_env_def)
  have sv: "survey_centroids no_token_env ''Hanamkonda'' ''12''
      = Inr [\<lparr>s_longitude = 79, s_latitude = 18\<rparr>]"
    by (simp add: no_token_env_def scenario_env_def)
  from C4_missing_credential [of no_token_env "''Hanamkonda''" "''12''"] h sv
  have "fst (analyzeLocation no_token_env ''Hanamkonda'' ''12'') = Failure
      ''Mapbox token not configured. Please set MAPBOX_TOKEN in environment variables.''
    \<and> snd (analyzeLocation no_token_env ''Hanamkonda'' ''12'') = [SurveyQuery ''Hanamkonda'' ''12'']"
    by blast
  with h show ?thesis by (simp add: prod_eq_iff)
qed

text \<open>
  Claim C5. On every successful analysis the development score lies between 0 and 100 and
  each reported sub-score lies in its documented range.
\<close>

theorem C5_score_ranges:
  assumes "fst (analyzeLocation e v s) = Success r"
  shows "0 \<le> development_score r \<and> development_score r \<le> 100
       \<and> 0 \<le> poi_score (score_breakdown r) \<and> poi_score (score_breakdown r) \<le> 30
       \<and> 0 \<le> amenity_score (score_breakdown r) \<and> amenity_score (score_breakdown r) \<le> 25
       \<and> 0 \<le> ftl_score (score_breakdown r) \<and> ftl_score (score_breakdown r) \<le> 20
       \<and> 0 \<le> business_score (score_breakdown r) \<and> business_score (score_breakdown r) \<le> 15
       \<and> 0 \<le> accessibility_score (score_breakdown r)
       \<and> accessibility_score (score_breakdown r) \<le> 10"
proof -
  from assms(1) obtain survey g uf poiRows cm pol hos road ftlRows tanksRows
    where r: "r = assemble e v s survey g uf poiRows cm pol hos road ftlRows tanksRows"
    unfolding analyzeLocation_Success_iff by blast
  let ?poi = "poiScore_of (length poiRows)"
  let ?amenity = "amenityScore_of pol hos road"
  let ?ftl = "ftlScore_of (ftlPercentage_of ftlRows)"
  let ?business = "businessScore_of (supportiveBusinesses_of (poiBreakdown_of cm (length poiRows)))"
  let ?access = "accessibilityScore_of cm"
  note ranges = poiScore_of_range [of "length poiRows"] amenityScore_of_range [of pol hos road]
    ftlScore_of_range [of ftlRows]
    businessScore_of_range [of "supportiveBusinesses_of (poiBreakdown_of cm (length poiRows))"]
    accessibilityScore_of_range [of cm]
  have sum: "of_int 0 \<le> fadd (fadd (fadd (fadd ?poi ?amenity) ?ftl) ?business) ?access"
    "fadd (fadd (fadd (fadd ?poi ?amenity) ?ftl) ?business) ?access \<le> of_int 100"
    using ranges by (intro score_sum_range; simp)+
  have dev: "0 \<le> development_score r \<and> development_score r \<le> 100"
    using Math_round_range [OF sum] by (simp add: r assemble_scores)
  have sb: "score_breakdown r =
      \<lparr>poi_score = min 30 (toFixed ?poi 1), amenity_score = min 25 (toFixed ?amenity 1),
       ftl_score = min 20 (toFixed ?ftl 1), business_score = min 15 (toFixed ?business 1),
       accessibility_score = min 10 (toFixed ?access 1)\<rparr>"
    by (simp only: r assemble_scores)
  have lo: "0 \<le> toFixed ?poi 1" "0 \<le> toFixed ?amenity 1" "0 \<le> toFixed ?ftl 1"
    "0 \<le> toFixed ?business 1" "0 \<le> toFixed ?access 1"
    using ranges by (simp_all add: toFixed_nonneg)
  from dev lo show ?thesis unfolding sb by simp
qed

theorem C5_ranges_witness:
  "\<exists>r. fst (analyzeLocation scenario_env ''Hanamkonda'' ''13'') = Success r
      \<and> 0 \<le> development_score r \<and> development_score r \<le> 100
      \<and> poi_score (score_breakdown r) \<le> 30"
proof -
  from scenario_categoryMap obtain cm where cm: "categoryMap_forEach [] scenario_pois = Inr cm" ..
  note ok = scenario_Success [OF cm, of "''Hanamkonda''" "''13''"]
  from C5_score_ranges [OF ok] ok show ?thesis by blast
qed

text \<open>
  Claim C6. On every successful analysis the counts of the breakdown add up to
  \<open>total_pois\<close>, the number of rows the POI query returned; the categories of the
  breakdown are pairwise different, every returned POI falls under exactly one entry,
  and an entry counts exactly the POIs whose category coerces to its label.
\<close>

theorem C6_counts_sum_to_total:
  assumes "fst (analyzeLocation e v s) = Success r"
  shows "sum_list (map count (poi_breakdown r)) = total_pois r
       \<and> distinct (map category (poi_breakdown r))
       \<and> (\<exists>rows. pois_in e (isochrone_geometry (map_data r)) = Inr rows
            \<and> total_pois r = length rows
            \<and> list_all (\<lambda>p. length (filter (\<lambda>a. category a = key_of p) (poi_breakdown r)) = 1)
                 rows
            \<and> list_all (\<lambda>a. count a = length (filter (\<lambda>p. key_of p = category a) rows))
                 (poi_breakdown r))"
proof -
  from assms(1) obtain survey g uf poiRows cm pol hos road ftlRows tanksRows
    where pois: "pois_in e g = Inr poiRows"
      and cm: "categoryMap_forEach [] poiRows = Inr cm"
      and r: "r = assemble e v s survey g uf poiRows cm pol hos road ftlRows tanksRows"
    unfolding analyzeLocation_Success_iff by blast
  let ?pb = "poiBreakdown_of cm (length poiRows)"
  have pb: "poi_breakdown r = ?pb" and total: "total_pois r = length poiRows"
    and g: "isochrone_geometry (map_data r) = g"
    by (simp_all add: r assemble_fields)
  have d: "distinct (map category ?pb)" by (rule poiBreakdown_distinct [OF cm])
  have one: "length (filter (\<lambda>a. category a = key_of p) ?pb) = 1" if "p \<in> set poiRows" for p
  proof -
    from poiBreakdown_has_key [OF cm that, of "length poiRows"]
    have "key_of p \<in> category ` set ?pb" by force
    with d show ?thesis by (rule filter_distinct_key)
  qed
  have cnt: "count a = length (filter (\<lambda>p. key_of p = category a) poiRows)" if "a \<in> set ?pb" for a
    using poiBreakdown_entry(3) [OF cm that] .
  have "sum_list (map count ?pb) = length poiRows" by (rule poiBreakdown_sum [OF cm])
  with d one cnt pois show ?thesis
    unfolding pb total g by (auto simp: list_all_iff)
qed

theorem C6_sum_witness:
  "\<exists>r. fst (analyzeLocation scenario_env ''Hanamkonda'' ''14'') = Success r
      \<and> sum_list (map count (poi_breakdown r)) = 40 \<and> total_pois r = 40"
proof -
  from scenario_categoryMap obtain cm where cm: "categoryMap_forEach [] scenario_pois = Inr cm" ..
  note ok = scenario_Success [OF cm, of "''Hanamkonda''" "''14''"]
  let ?r = "assemble scenario_env ''Hanamkonda'' ''14'' \<lparr>s_longitude = 79, s_latitude = 18\<rparr>
       walk_polygon False scenario_pois cm
       (Some \<lparr>distance_m = 2000, nf_lat = 18, nf_lon = 79\<rparr>)
       (Some \<lparr>distance_m = 3000, nf_lat = 18, nf_lon = 79\<rparr>)
       (Some \<lparr>distance_m = 500, nf_lat = 18, nf_lon = 79\<rparr>)
       [\<lparr>total_intersection = 0, isochrone_area = None\<rparr>]
       [\<lparr>geojson = Some (FeatureCollection None)\<rparr>]"
  have "total_pois ?r = 40" by (simp add: assemble_fields scenario_pois_def)
  with C6_counts_sum_to_total [OF ok] ok show ?thesis by auto
qed

text \<open>
  Claim C7. On every successful analysis each \<open>percent\<close> of the breakdown and of the
  supportive businesses is a finite number (no division by zero is evaluated). When the
  POI query returns no POI, the breakdown and the supportive subset are empty and the
  business score is 0.
\<close>

theorem C7_zero_pois:
  assumes "fst (analyzeLocation e v s) = Success r"
  shows "list_all (\<lambda>a. percent a \<noteq> None) (poi_breakdown r)
       \<and> list_all (\<lambda>b. sb_percent b \<noteq> None) (supportive_businesses r)
       \<and> (total_pois r = 0 \<longrightarrow>
            poi_breakdown r = [] \<and> supportive_businesses r = []
            \<and> business_score (score_breakdown r) = 0)"
proof -
  from assms(1) obtain survey g uf poiRows cm pol hos road ftlRows tanksRows
    where cm: "categoryMap_forEach [] poiRows = Inr cm"
      and r: "r = assemble e v s survey g uf poiRows cm pol hos road ftlRows tanksRows"
    unfolding analyzeLocation_Success_iff by blast
  let ?pb = "poiBreakdown_of cm (length poiRows)"
  have pb: "poi_breakdown r = ?pb" and total: "total_pois r = length poiRows"
    and sb: "supportive_businesses r = supportiveBusinesses_of ?pb"
    by (simp_all add: r assemble_fields)
  have "percent a \<noteq> None" if a: "a \<in> set ?pb" for a
  proof -
    from poiBreakdown_entry(1) [OF cm a] have "poiRows \<noteq> []" by auto
    then have "0 < length poiRows" by simp
    with poiBreakdown_entry(4) [OF cm a] show ?thesis
      by (simp add: percent_of_defined)
  qed
  then have p1: "list_all (\<lambda>a. percent a \<noteq> None) ?pb"
    by (simp add: list_all_iff)
  have "list_all (\<lambda>a. 0 < count a) ?pb"
    using poiBreakdown_entry(5) [OF cm] by (simp add: list_all_iff)
  then have p2: "list_all (\<lambda>b. sb_percent b \<noteq> None) (supportiveBusinesses_of ?pb)"
    by (rule supportive_percent_defined)
  have zero: "poi_breakdown r = [] \<and> supportive_businesses r = []
      \<and> business_score (score_breakdown r) = 0" if "total_pois r = 0"
  proof -
    from that total have "poiRows = []" by simp
    with cm have "cm = []" by simp
    with \<open>poiRows = []\<close> show ?thesis
      by (simp add: r assemble_fields assemble_scores)
  qed
  from p1 p2 zero show ?thesis unfolding pb sb by blast
qed

theorem C7_zero_pois_witness:
  "\<exists>r. fst (analyzeLocation no_poi_env ''Hanamkonda'' ''12'') = Success r
      \<and> total_pois r = 0 \<and> poi_breakdown r = [] \<and> supportive_businesses r = []
      \<and> business_score (score_breakdown r) = 0"
proof -
  note ok = no_poi_env_Success [of "''Hanamkonda''" "''12''"]
  let ?r = "assemble no_poi_env ''Hanamkonda'' ''12'' \<lparr>s_longitude = 79, s_latitude = 18\<rparr>
       walk_polygon False [] []
       (feature_of [\<lparr>dist_m = 2000, n_lat = 18, n_lon = 79\<rparr>])
       (feature_of [\<lparr>dist_m = 3000, n_lat = 18, n_lon = 79\<rparr>])
       (feature_of [\<lparr>dist_m = 500, n_lat = 18, n_lon = 79\<rparr>])
       [\<lparr>total_intersection = 0, isochrone_area = None\<rparr>]
       [\<lparr>geojson = Some (FeatureCollection None)\<rparr>]"
  have "total_pois ?r = 0" by (simp add: assemble_fields)
  with C7_zero_pois [OF ok] ok show ?thesis by auto
qed

text \<open>
  Claim C8, for what the code does. For each facility kind (police, hospital, main road)
  on its own: when the facility table holds no rows, the lookup does not fail and answers
  null, the reported distance of that kind is null and the kind adds 0 to the amenity
  score. When the facility table does not exist, the lookup query is rejected with the
  store's message for the missing relation and no analysis of the parcel succeeds; an
  analysis that gets as far as the lookups returns, as its error, the store's message for
  the first missing table.
\<close>

theorem C8_empty_or_missing_table:
  "(\<forall>t \<in> set validTables. facility_table e t v s = Scan [] \<longrightarrow>
       getNearestFeature e v s t = (Inr None, [NearestQuery t v s]))
   \<and> (fst (analyzeLocation e v s) = Success r \<longrightarrow>
        (facility_table e ''ts_policestations'' v s = Scan [] \<longrightarrow>
           distance_to_police r = None \<and> nearest_police (map_data r) = None
           \<and> amenity_score (score_breakdown r) =
               min 25 (toFixed (min 25
                 (fadd (fadd 0 (spec_component 10 (km (nearest_hospital (map_data r)))))
                    (spec_component 5 (km (nearest_road (map_data r)))))) 1))
      \<and> (facility_table e ''ts_hospitals'' v s = Scan [] \<longrightarrow>
           distance_to_hospital r = None \<and> nearest_hospital (map_data r) = None
           \<and> amenity_score (score_breakdown r) =
               min 25 (toFixed (min 25
                 (fadd (fadd (spec_component 10 (km (nearest_police (map_data r)))) 0)
                    (spec_component 5 (km (nearest_road (map_data r)))))) 1))
      \<and> (facility_table e ''ts_main_roads'' v s = Scan [] \<longrightarrow>
           distance_to_main_road r = None \<and> nearest_road (map_data r) = None
           \<and> amenity_score (score_breakdown r) =
               min 25 (toFixed (min 25
                 (fadd (fadd (spec_component 10 (km (nearest_police (map_data r))))
                          (spec_component 10 (km (nearest_hospital (map_data r)))))
                    0)) 1)))
   \<and> (\<forall>t \<in> set validTables. facility_table e t v s = NoSuchTable \<longrightarrow>
        getNearestFeature e v s t
          = (Inl (DatabaseError (relation_missing t)), [NearestQuery t v s])
        \<and> (\<exists>msg. fst (analyzeLocation e v s) = Failure msg))
   \<and> (\<forall>survey rest token g uf rows t.
        survey_centroids e v s = Inr (survey # rest)
        \<and> truthy (MAPBOX_TOKEN e) = Some token
        \<and> fst (resolve_isochrone e v s (s_longitude survey) (s_latitude survey) token)
            = Inr (g, uf)
        \<and> pois_in e g = Inr rows
        \<and> list_all (\<lambda>p. key_of p \<notin> set Object_prototype_properties) rows
        \<and> first_missing e v s = Some t
      \<longrightarrow> fst (analyzeLocation e v s) = Failure (relation_missing t))"
proof -
  have empty: "getNearestFeature e v s t = (Inr None, [NearestQuery t v s])"
    if "t \<in> set validTables" "facility_table e t v s = Scan []" for t
    using getNearestFeature_Scan [OF that] by simp
  have fields: "(facility_table e ''ts_policestations'' v s = Scan [] \<longrightarrow>
           distance_to_police r = None \<and> nearest_police (map_data r) = None
           \<and> amenity_score (score_breakdown r) =
               min 25 (toFixed (min 25
                 (fadd (fadd 0 (spec_component 10 (km (nearest_hospital (map_data r)))))
                    (spec_component 5 (km (nearest_road (map_data r)))))) 1))
      \<and> (facility_table e ''ts_hospitals'' v s = Scan [] \<longrightarrow>
           distance_to_hospital r = None \<and> nearest_hospital (map_data r) = None
           \<and> amenity_score (score_breakdown r) =
               min 25 (toFixed (min 25
                 (fadd (fadd (spec_component 10 (km (nearest_police (map_data r)))) 0)
                    (spec_component 5 (km (nearest_road (map_data r)))))) 1))
      \<and> (facility_table e ''ts_main_roads'' v s = Scan [] \<longrightarrow>
           distance_to_main_road r = None \<and> nearest_road (map_data r) = None
           \<and> amenity_score (score_breakdown r) =
               min 25 (toFixed (min 25
                 (fadd (fadd (spec_component 10 (km (nearest_police (map_data r))))
                          (spec_component 10 (km (nearest_hospital (map_data r)))))
                    0)) 1))"
    if "fst (analyzeLocation e v s) = Success r"
  proof -
    from analyzeLocation_nearest [OF that] obtain prow hrow rrow
      where "facility_table e ''ts_policestations'' v s = Scan prow"
        and "facility_table e ''ts_hospitals'' v s = Scan hrow"
        and "facility_table e ''ts_main_roads'' v s = Scan rrow"
        and "nearest_police (map_data r) = feature_of prow"
        and "nearest_hospital (map_data r) = feature_of hrow"
        and "nearest_road (map_data r) = feature_of rrow"
        and "distance_to_police r = distance_km (feature_of prow)"
        and "distance_to_hospital r = distance_km (feature_of hrow)"
        and "distance_to_main_road r = distance_km (feature_of rrow)"
        and "amenity_score (score_breakdown r)
             = min 25 (toFixed (spec_amenity_score (km (feature_of prow)) (km (feature_of hrow))
                          (km (feature_of rrow))) 1)"
      by blast
    then show ?thesis
      by (auto simp: distance_km_def km_def spec_amenity_score_def spec_component_def)
  qed
  have missing: "getNearestFeature e v s t
          = (Inl (DatabaseError (relation_missing t)), [NearestQuery t v s])
        \<and> (\<exists>msg. fst (analyzeLocation e v s) = Failure msg)"
    if "t \<in> set validTables" "facility_table e t v s = NoSuchTable" for t
    using that getNearestFeature_NoSuchTable [OF that] analyzeLocation_missing_table [OF that]
    by blast
  from empty fields missing analyzeLocation_first_missing [of e v s] show ?thesis
    by blast
qed

lemma empty_police_amenity:
  "min 25 (toFixed (min 25 (fadd (fadd 0 (spec_component 10 (Some 3)))
     (spec_component 5 (Some (1 / 2))))) 1) = 23 / 2"
proof -
  have t: "toFixed (23 / 2) 1 = 23 / 2"
    using toFixed_tenths [of 115] binary64_half_integer [of 23] by simp
  have m: "min 25 (23 / 2 :: rat) = 23 / 2" by simp
  show ?thesis
    unfolding spec_component_def option.case amenity_components max_0_values m t
    by (rule refl)
qed

theorem C8_empty_table_witness:
  "facility_table empty_police_env ''ts_policestations'' ''Hanamkonda'' ''12'' = Scan []
   \<and> (\<exists>r. fst (analyzeLocation empty_police_env ''Hanamkonda'' ''12'') = Success r
         \<and> distance_to_police r = None \<and> nearest_police (map_data r) = None
         \<and> km (nearest_hospital (map_data r)) = Some 3
         \<and> km (nearest_road (map_data r)) = Some (1 / 2)
         \<and> amenity_score (score_breakdown r) = 23 / 2)"
proof -
  from scenario_categoryMap obtain cm where cm: "categoryMap_forEach [] scenario_pois = Inr cm" ..
  let ?r = "assemble empty_police_env ''Hanamkonda'' ''12'' \<lparr>s_longitude = 79, s_latitude = 18\<rparr>
       walk_polygon False scenario_pois cm
       (feature_of [])
       (feature_of [\<lparr>dist_m = 3000, n_lat = 18, n_lon = 79\<rparr>])
       (feature_of [\<lparr>dist_m = 500, n_lat = 18, n_lon = 79\<rparr>])
       [\<lparr>total_intersection = 0, isochrone_area = None\<rparr>]
       [\<lparr>geojson = Some (FeatureCollection None)\<rparr>]"
  have ok: "fst (analyzeLocation empty_police_env ''Hanamkonda'' ''12'') = Success ?r"
    by (rule empty_police_env_Success [OF cm])
  have t: "facility_table empty_police_env ''ts_policestations'' ''Hanamkonda'' ''12'' = Scan []"
    by (simp add: empty_police_env_def)
  have k: "km (nearest_hospital (map_data ?r)) = Some 3"
    "km (nearest_road (map_data ?r)) = Some (1 / 2)"
    using binary64_half_integer [of 1]
    by (simp_all add: assemble_fields km_def feature_of_def fdiv_def)
  from C8_empty_or_missing_table [of empty_police_env "''Hanamkonda''" "''12''" ?r] ok t
  have "distance_to_police ?r = None \<and> nearest_police (map_data ?r) = None
      \<and> amenity_score (score_breakdown ?r) =
          min 25 (toFixed (min 25
            (fadd (fadd 0 (spec_component 10 (km (nearest_hospital (map_data ?r)))))
               (spec_component 5 (km (nearest_road (map_data ?r)))))) 1)"
    by blast
  then have "distance_to_police ?r = None \<and> nearest_police (map_data ?r) = None
      \<and> amenity_score (score_breakdown ?r) = 23 / 2"
    unfolding k empty_police_amenity .
  with ok t k show ?thesis by blast
qed

text \<open>
  Claim C8 does not hold for a missing table: with no relation \<open>ts_policestations\<close> the
  police lookup throws, the outer \<open>catch\<close> returns the store's message, and the hospital,
  road and tank queries are never issued: the analysis answers an error and no distance.
\<close>

theorem C8_missing_table_counterexample:
  "facility_table missing_police_env ''ts_policestations'' ''Hanamkonda'' ''12'' = NoSuchTable
   \<and> analyzeLocation missing_police_env ''Hanamkonda'' ''12'' =
       (Failure (''relation '' @ [CHR 0x22] @ ''ts_policestations'' @ [CHR 0x22]
                   @ '' does not exist''),
        [SurveyQuery ''Hanamkonda'' ''12'',
         IsochroneFetch 79 18 10 1 ''pk.test'',
         PoiQuery walk_polygon,
         NearestQuery ''ts_policestations'' ''Hanamkonda'' ''12''])"
proof -
  from scenario_categoryMap obtain cm where cm: "categoryMap_forEach [] scenario_pois = Inr cm" ..
  have t: "facility_table missing_police_env ''ts_policestations'' ''Hanamkonda'' ''12''
      = NoSuchTable"
    by (simp add: missing_police_env_def)
  have sv: "survey_centroids missing_police_env ''Hanamkonda'' ''12''
      = Inr [\<lparr>s_longitude = 79, s_latitude = 18\<rparr>]"
    and tk: "truthy (MAPBOX_TOKEN missing_police_env) = Some ''pk.test''"
    and pq: "pois_in missing_police_env walk_polygon = Inr scenario_pois"
    by (simp_all add: missing_police_env_def scenario_env_def truthy_def)
  have iso: "resolve_isochrone missing_police_env ''Hanamkonda'' ''12'' 79 18 ''pk.test''
      = (Inr (walk_polygon, False), [IsochroneFetch 79 18 10 1 ''pk.test''])"
    by (subst resolve_isochrone_primary [where g = walk_polygon])
       (simp_all add: missing_police_env_def scenario_env_def isochrone_of_response_def
          walk_polygon_def ISO_MINUTES_def DENOISE_def)
  have police: "getNearestFeature missing_police_env ''Hanamkonda'' ''12'' ''ts_policestations''
      = (Inl (DatabaseError (''relation '' @ [CHR 0x22] @ ''ts_policestations'' @ [CHR 0x22]
                   @ '' does not exist'')),
         [NearestQuery ''ts_policestations'' ''Hanamkonda'' ''12''])"
    using t by (simp add: getNearestFeature_NoSuchTable relation_missing_def)
  have "analyzeLocation_try missing_police_env ''Hanamkonda'' ''12'' =
      (Inl (DatabaseError (''relation '' @ [CHR 0x22] @ ''ts_policestations'' @ [CHR 0x22]
                   @ '' does not exist'')),
        [SurveyQuery ''Hanamkonda'' ''12'',
         IsochroneFetch 79 18 10 1 ''pk.test'',
         PoiQuery walk_polygon,
         NearestQuery ''ts_policestations'' ''Hanamkonda'' ''12''])"
    unfolding analyzeLocation_try_def
    by (simp add: io_call_def sv tk pq iso police cm)
  with t show ?thesis
    by (simp add: analyzeLocation_def)
qed

text \<open>
  Claim C9. When the survey query returns no row, the analysis returns the not-found error
  and nothing else: the returned object has the single property \<open>error\<close>, and no further
  call was made.
\<close>

theorem C9_not_found:
  assumes "survey_centroids e v s = Inr []"
  shows "fst (analyzeLocation e v s)
           = Failure ''No matching survey centroid found. Check village and survey number.''
       \<and> result_keys (fst (analyzeLocation e v s)) = [''error'']
       \<and> snd (analyzeLocation e v s) = [SurveyQuery v s]"
  using analyzeLocation_no_rows [OF assms] by (simp add: result_keys_def)

theorem C9_not_found_witness:
  "survey_centroids unknown_parcel_env ''Hanamkonda'' ''999'' = Inr []
   \<and> fst (analyzeLocation unknown_parcel_env ''Hanamkonda'' ''999'')
       = Failure ''No matching survey centroid found. Check village and survey number.''
   \<and> result_keys (fst (analyzeLocation unknown_parcel_env ''Hanamkonda'' ''999'')) = [''error'']"
proof -
  have h: "survey_centroids unknown_parcel_env ''Hanamkonda'' ''999'' = Inr []"
    by (simp add: unknown_parcel_env_def)
  from C9_not_found [OF h] h show ?thesis by blast
qed

text \<open>
  Claim C10. On every successful analysis in which a returned POI has no category, the
  breakdown has an entry labelled "null" that counts the POIs whose category coerces to
  that string and holds the POI's location; the POI is counted in \<open>total_pois\<close> and in
  the sum of the counts; and an entry labelled "Other" exists only when a POI carries
  that very label.
\<close>

theorem C10_null_category_kept:
  assumes "fst (analyzeLocation e v s) = Success r"
    and "pois_in e (isochrone_geometry (map_data r)) = Inr rows"
    and "p \<in> set rows" and "p_category p = None"
  shows "(\<exists>a \<in> set (poi_breakdown r). category a = ''null'' \<and> 0 < count a
            \<and> count a = length (filter (\<lambda>q. key_of q = ''null'') rows)
            \<and> location_of p \<in> set (locations a))
       \<and> total_pois r = length rows
       \<and> sum_list (map count (poi_breakdown r)) = total_pois r
       \<and> ((\<exists>a \<in> set (poi_breakdown r). category a = ''Other'')
            \<longleftrightarrow> (\<exists>q \<in> set rows. p_category q = Some ''Other''))"
proof -
  from assms(1) obtain survey g uf poiRows cm pol hos road ftlRows tanksRows
    where pois: "pois_in e g = Inr poiRows"
      and cm: "categoryMap_forEach [] poiRows = Inr cm"
      and r: "r = assemble e v s survey g uf poiRows cm pol hos road ftlRows tanksRows"
    unfolding analyzeLocation_Success_iff by blast
  let ?pb = "poiBreakdown_of cm (length poiRows)"
  have pb: "poi_breakdown r = ?pb" and total: "total_pois r = length poiRows"
    and g: "isochrone_geometry (map_data r) = g"
    by (simp_all add: r assemble_fields)
  from assms(2) pois g have rows: "poiRows = rows" by simp
  from assms(3) rows have p: "p \<in> set poiRows" by simp
  from poiBreakdown_has_key [OF cm p, of "length poiRows"]
  obtain a where a: "a \<in> set ?pb" and cat: "category a = ''null''"
    using assms(4) by (auto simp: key_of_simps)
  note e = poiBreakdown_entry [OF cm a]
  have "location_of p \<in> set (locations a)"
    using e(2) p cat assms(4) by (simp add: key_of_simps)
  with a cat e(3,5)
  have first: "\<exists>a \<in> set ?pb. category a = ''null'' \<and> 0 < count a
      \<and> count a = length (filter (\<lambda>q. key_of q = ''null'') poiRows)
      \<and> location_of p \<in> set (locations a)"
    by auto
  have other: "(\<exists>a \<in> set ?pb. category a = ''Other'')
      \<longleftrightarrow> (\<exists>q \<in> set poiRows. p_category q = Some ''Other'')"
  proof
    assume "\<exists>a \<in> set ?pb. category a = ''Other''"
    then obtain b where b: "b \<in> set ?pb" and "category b = ''Other''" by blast
    with poiBreakdown_entry(1) [OF cm b] obtain q where "q \<in> set poiRows" "key_of q = ''Other''"
      by auto
    then show "\<exists>q \<in> set poiRows. p_category q = Some ''Other''"
      by (auto simp: key_of_simps)
  next
    assume "\<exists>q \<in> set poiRows. p_category q = Some ''Other''"
    then obtain q where q: "q \<in> set poiRows" and "key_of q = ''Other''"
      by (auto simp: key_of_simps)
    with poiBreakdown_has_key [OF cm q, of "length poiRows"]
    show "\<exists>a \<in> set ?pb. category a = ''Other''" by simp
  qed
  have "sum_list (map count ?pb) = length poiRows" by (rule poiBreakdown_sum [OF cm])
  with first other show ?thesis unfolding pb total rows [symmetric] by blast
qed

theorem C10_null_category_witness:
  "\<exists>r a. fst (analyzeLocation scenario_env ''Hanamkonda'' ''15'') = Success r
      \<and> pois_in scenario_env (isochrone_geometry (map_data r)) = Inr scenario_pois
      \<and> \<lparr>p_category = None, p_lat = 18, p_lon = 79\<rparr> \<in> set scenario_pois
      \<and> a \<in> set (poi_breakdown r) \<and> category a = ''null'' \<and> count a = 5
      \<and> total_pois r = 40"
proof -
  from scenario_categoryMap obtain cm where cm: "categoryMap_forEach [] scenario_pois = Inr cm" ..
  note ok = scenario_Success [OF cm, of "''Hanamkonda''" "''15''"]
  have q: "pois_in scenario_env g = Inr scenario_pois" for g
    by (simp add: scenario_env_def)
  have p: "\<lparr>p_category = None, p_lat = 18, p_lon = 79\<rparr> \<in> set scenario_pois"
    by (simp add: scenario_pois_def)
  have n: "length (filter (\<lambda>q. key_of q = ''null'') scenario_pois) = 5"
    by (simp add: scenario_pois_def key_of_def property_key_def)
  have t: "length scenario_pois = 40" by (simp add: scenario_pois_def)
  from C10_null_category_kept [OF ok q p] ok q p n t show ?thesis
    by (auto simp: )
qed

end
